theory Spec2Isabelle
  imports Complex_Main "HOL-Library.Sublist" "HOL-Library.AList"
begin

section \<open>Strings of the widget\<close>

text \<open>
  JavaScript strings are modelled as \<open>string\<close>, a list of 8-bit characters, read as code
  units below 256; other code units are not represented. \<open>String.prototype.toUpperCase\<close> is a table of the engine and is taken from it
  (\<open>toUpperCase\<close> of \<open>js_engine\<close> below); on ASCII strings it maps \<open>a..z\<close> to
  \<open>A..Z\<close> and leaves every other character alone, which is \<open>ascii_toUpperCase\<close>. An
  identifier that may be absent (\<open>undefined\<close>, \<open>null\<close>) is a \<open>string option\<close>.
\<close>

definition lower_letters :: string where
  "lower_letters = ''abcdefghijklmnopqrstuvwxyz''"

definition upper_letters :: string where
  "upper_letters = ''ABCDEFGHIJKLMNOPQRSTUVWXYZ''"

definition digit_chars :: string where
  "digit_chars = ''0123456789''"

definition toUpperCase_char :: "char \<Rightarrow> char" where
  "toUpperCase_char c =
     (case map_of (zip lower_letters upper_letters) c of Some u \<Rightarrow> u | None \<Rightarrow> c)"

definition ascii_toUpperCase :: "string \<Rightarrow> string" where
  "ascii_toUpperCase s = map toUpperCase_char s"

definition is_ascii :: "char \<Rightarrow> bool" where
  "is_ascii c = ((of_char c :: nat) < 128)"

text \<open>\<open>s.replace(/x/g, r)\<close> for a single character \<open>x\<close>.\<close>

definition replace_char :: "char \<Rightarrow> string \<Rightarrow> string \<Rightarrow> string" where
  "replace_char x r s = concat (map (\<lambda>c. if c = x then r else [c]) s)"

text \<open>The character class \<open>[A-Z0-9_]\<close> and \<open>s.replace(/[^A-Z0-9_]/g, '_')\<close>.\<close>

definition is_word_upper :: "char \<Rightarrow> bool" where
  "is_word_upper c = (c \<in> set upper_letters \<or> c \<in> set digit_chars \<or> c = CHR ''_'')"

definition replace_non_word :: "string \<Rightarrow> string" where
  "replace_non_word s = map (\<lambda>c. if is_word_upper c then c else CHR ''_'') s"

text \<open>\<open>x || d\<close> for a string \<open>x\<close> that may be absent: the empty string is falsy.\<close>

definition or_string :: "string option \<Rightarrow> string \<Rightarrow> string" where
  "or_string x d = (case x of None \<Rightarrow> d | Some s \<Rightarrow> if s = [] then d else s)"

subsection \<open>escapeHtml\<close>

definition escapeHtml :: "string option \<Rightarrow> string" where
  "escapeHtml str =
     replace_char (CHR 0x27) ''&#039;''
       (replace_char (CHR 0x22) ''&quot;''
         (replace_char (CHR ''>'') ''&gt;''
           (replace_char (CHR ''<'') ''&lt;''
             (replace_char (CHR ''&'') ''&amp;'' (or_string str [])))))"

definition escapeAttr :: "string option \<Rightarrow> string" where
  "escapeAttr str = replace_char (CHR 0x22) ''&quot;'' (escapeHtml str)"

text \<open>The five entities \<open>escapeHtml\<close> writes, without their leading ampersand.\<close>

definition entity_tails :: "string list" where
  "entity_tails = [''amp;'', ''lt;'', ''gt;'', ''quot;'', ''#039;'']"

text \<open>Every ampersand of a string starts one of the five entities.\<close>

fun amps_escaped :: "string \<Rightarrow> bool" where
  "amps_escaped [] = True"
| "amps_escaped (c # cs) =
     ((c \<noteq> CHR ''&'' \<or> list_ex (\<lambda>e. prefix e cs) entity_tails) \<and> amps_escaped cs)"

definition markup_chars :: "char set" where
  "markup_chars = {CHR ''<'', CHR ''>'', CHR 0x22, CHR 0x27}"

text \<open>What the five passes do to one character.\<close>

definition escape_one :: "char \<Rightarrow> string" where
  "escape_one c =
     (if c = CHR ''&'' then ''&amp;'' else if c = CHR ''<'' then ''&lt;''
      else if c = CHR ''>'' then ''&gt;'' else if c = CHR 0x22 then ''&quot;''
      else if c = CHR 0x27 then ''&#039;'' else [c])"

section \<open>JavaScript values\<close>

text \<open>
  A number is \<open>NaN\<close>, an infinity or a finite value; finite values are exact rationals, so
  the rounding of double-precision arithmetic is not part of the model.
\<close>

datatype jsnum = NaN | PosInf | NegInf | Fin rat

datatype jsval = JUndefined | JNull | JBool bool | JNum jsnum | JStr string
  | JArr "jsval list" | JObj "(string \<times> jsval) list"

fun truthy :: "jsval \<Rightarrow> bool" where
  "truthy JUndefined = False"
| "truthy JNull = False"
| "truthy (JBool b) = b"
| "truthy (JNum n) = (n \<noteq> NaN \<and> n \<noteq> Fin 0)"
| "truthy (JStr s) = (s \<noteq> [])"
| "truthy (JArr _) = True"
| "truthy (JObj _) = True"

text \<open>\<open>a && b\<close>.\<close>

definition js_and :: "jsval \<Rightarrow> jsval \<Rightarrow> jsval" where
  "js_and a b = (if truthy a then b else a)"

text \<open>
  \<open>v.k\<close> for the property names the widget reads (\<open>error\<close>, \<open>offers\<close>, \<open>active\<close>,
  \<open>id\<close>, \<open>maxPerOrder\<close>, \<open>giftCards\<close>, ...): an own property of a parsed object, and
  \<open>undefined\<close> on every other value. The widget guards each read with \<open>v &&\<close>, so the
  read is never made on \<open>null\<close> or \<open>undefined\<close> unless said otherwise.
\<close>

fun get :: "jsval \<Rightarrow> string \<Rightarrow> jsval" where
  "get (JObj kvs) k = (case map_of kvs k of Some v \<Rightarrow> v | None \<Rightarrow> JUndefined)"
| "get _ k = JUndefined"

fun isArray :: "jsval \<Rightarrow> bool" where
  "isArray (JArr _) = True"
| "isArray _ = False"

fun elems :: "jsval \<Rightarrow> jsval list" where
  "elems (JArr xs) = xs"
| "elems _ = []"

fun join :: "string \<Rightarrow> string list \<Rightarrow> string" where
  "join sep [] = []"
| "join sep [x] = x"
| "join sep (x # y # ys) = x @ sep @ join sep (y # ys)"

text \<open>
  What the engine supplies and the model does not compute: the text of a number, the
  messages of the errors the engine itself throws, and the upper-casing of a string.
\<close>

record js_engine =
  numToString :: "jsnum \<Rightarrow> string"
  typeErrorMessage :: string
  syntaxErrorMessage :: string
  toUpperCase :: "string \<Rightarrow> string"

text \<open>\<open>String(v)\<close>.\<close>

primrec js_String :: "(jsnum \<Rightarrow> string) \<Rightarrow> jsval \<Rightarrow> string" where
  "js_String nf JUndefined = ''undefined''"
| "js_String nf JNull = ''null''"
| "js_String nf (JBool b) = (if b then ''true'' else ''false'')"
| "js_String nf (JNum n) = nf n"
| "js_String nf (JStr s) = s"
| "js_String nf (JArr xs) =
     join '','' (map (\<lambda>x. if x = JNull \<or> x = JUndefined then [] else js_String nf x) xs)"
| "js_String nf (JObj kvs) = ''[object Object]''"

subsection \<open>Exceptions\<close>

text \<open>
  \<open>Error m\<close> is \<open>new Error(m)\<close>; the other two are thrown by the engine. A computation
  that may throw returns \<open>exn + 'a\<close>.
\<close>

datatype exn = Error string | TypeError | SyntaxError

definition message :: "js_engine \<Rightarrow> exn \<Rightarrow> string" where
  "message eng e =
     (case e of Error m \<Rightarrow> m | TypeError \<Rightarrow> typeErrorMessage eng
      | SyntaxError \<Rightarrow> syntaxErrorMessage eng)"

definition try_catch :: "exn + 'a \<Rightarrow> (exn \<Rightarrow> exn + 'a) \<Rightarrow> exn + 'a" where
  "try_catch block handler = (case block of Inl e \<Rightarrow> handler e | Inr v \<Rightarrow> Inr v)"

definition and_then :: "exn + 'a \<Rightarrow> ('a \<Rightarrow> exn + 'b) \<Rightarrow> exn + 'b" where
  "and_then m f = (case m of Inl e \<Rightarrow> Inl e | Inr v \<Rightarrow> f v)"

text \<open>\<open>e && e.message ? e.message : 'UNKNOWN'\<close>.\<close>

definition message_or_UNKNOWN :: "js_engine \<Rightarrow> exn \<Rightarrow> string" where
  "message_or_UNKNOWN eng e = or_string (Some (message eng e)) ''UNKNOWN''"

subsection \<open>sanitizeErrorCode\<close>

definition known :: "string list" where
  "known = [''NO_ITEMS'', ''OFFER_NOT_FOUND'', ''QTY_LIMIT'', ''CURRENCY_MISMATCH'',
            ''INVALID_MERCHANT'', ''UNAUTHORISED'', ''NETWORK'', ''REQUEST_FAILED'',
            ''PARSE'', ''BAD_RESPONSE'']"

definition known_includes :: "string option \<Rightarrow> bool" where
  "known_includes msg = (case msg of None \<Rightarrow> False | Some m \<Rightarrow> m \<in> set known)"

definition sanitizeErrorCode :: "js_engine \<Rightarrow> string option \<Rightarrow> string" where
  "sanitizeErrorCode eng msg =
     (if known_includes msg then (case msg of Some m \<Rightarrow> m | None \<Rightarrow> [])
      else let up = replace_non_word (toUpperCase eng (or_string msg ''UNKNOWN''))
           in if up = [] then ''UNKNOWN'' else up)"

text \<open>
  The engine upper-cases ASCII strings as every engine does.
\<close>

definition upper_on_ascii :: "js_engine \<Rightarrow> bool" where
  "upper_on_ascii eng =
     (\<forall>s. list_all is_ascii s \<longrightarrow> toUpperCase eng s = ascii_toUpperCase s)"

text \<open>
  What the specification says of an identifier that is not on the allow-list, character by
  character: it is upper-cased, and a character that is not a letter, a digit or an
  underscore becomes an underscore.
\<close>

definition sanitize_char_by_spec :: "char \<Rightarrow> char" where
  "sanitize_char_by_spec c =
     (if c \<in> set lower_letters \<or> c \<in> set upper_letters \<or> c \<in> set digit_chars \<or>
         c = CHR ''_''
      then toUpperCase_char c else CHR ''_'')"

section \<open>NetworkClient\<close>

text \<open>
  What \<open>fetch\<close> settles with: \<open>None\<close> when it rejects (no response, or the request
  was aborted), else a response with its \<open>ok\<close> flag and its body as \<open>resp.json()\<close>
  reads it (\<open>None\<close> when the body is not JSON).
\<close>

record response =
  ok :: bool
  body :: "jsval option"

definition resp_json :: "response \<Rightarrow> exn + jsval" where
  "resp_json resp = (case body resp of None \<Rightarrow> Inl SyntaxError | Some data \<Rightarrow> Inr data)"

record catalog =
  merchantId :: jsval
  offers :: "jsval list"

text \<open>
  \<open>fetchOffersOnce\<close> from the point where its \<open>fetch\<close> has settled. The two
  \<open>try\<close> blocks are kept as they are written: each \<open>throw\<close> inside one is seen by
  that block's own \<open>catch\<close>.
\<close>

definition fetchOffersOnce_resume :: "js_engine \<Rightarrow> response option \<Rightarrow> exn + catalog" where
  "fetchOffersOnce_resume eng fetched =
     (case fetched of
        None \<Rightarrow> Inl (Error ''NETWORK'')
      | Some resp \<Rightarrow>
          if \<not> ok resp then
            and_then
              (try_catch
                 (and_then (resp_json resp) (\<lambda>data.
                    if truthy (js_and data (get data ''error''))
                    then Inl (Error (js_String (numToString eng) (get data ''error'')))
                    else Inr ()))
                 (\<lambda>_. Inr ()))
              (\<lambda>_. Inl (Error ''REQUEST_FAILED''))
          else
            try_catch
              (and_then (resp_json resp) (\<lambda>data.
                 if \<not> truthy data \<or> \<not> isArray (get data ''offers'')
                 then Inl (Error ''BAD_RESPONSE'')
                 else Inr \<lparr>merchantId = get data ''merchantId'',
                           offers = filter (\<lambda>x. truthy (js_and x (get x ''active'')))
                                      (elems (get data ''offers''))\<rparr>))
              (\<lambda>e. Inl (Error ''PARSE'')))"

text \<open>\<open>submitPurchase\<close> from the point where its \<open>fetch\<close> has settled.\<close>

definition submitPurchase_resume :: "js_engine \<Rightarrow> response option \<Rightarrow> exn + jsval" where
  "submitPurchase_resume eng fetched =
     (case fetched of
        None \<Rightarrow> Inl (Error ''NETWORK'')
      | Some resp \<Rightarrow>
          and_then (try_catch (resp_json resp) (\<lambda>_. Inl (Error ''PARSE''))) (\<lambda>data.
            if \<not> ok resp then
              (if truthy (js_and data (get data ''error''))
               then Inl (Error (js_String (numToString eng) (get data ''error'')))
               else Inl (Error ''REQUEST_FAILED''))
            else if truthy (js_and data (get data ''error''))
            then Inl (Error (js_String (numToString eng) (get data ''error'')))
            else Inr data))"

section \<open>SelectionModel\<close>

text \<open>
  \<open>selected\<close> is a \<open>Map\<close> from offer id to quantity, kept in insertion order:
  \<open>AList.update\<close> is \<open>Map.set\<close> and \<open>AList.delete\<close> is \<open>Map.delete\<close>. The values
  the handlers store are finite numbers.
\<close>

type_synonym selection = "(string \<times> rat) list"

text \<open>\<open>selected.get(id) || 0\<close>.\<close>

definition qty_or_0 :: "selection \<Rightarrow> string \<Rightarrow> rat" where
  "qty_or_0 sel k = (case map_of sel k of None \<Rightarrow> 0 | Some q \<Rightarrow> q)"

definition countSelectedItems :: "selection \<Rightarrow> rat" where
  "countSelectedItems sel = sum_list (map snd sel)"

definition getSelectedItems :: "selection \<Rightarrow> (string \<times> rat) list" where
  "getSelectedItems sel = filter (\<lambda>(k, q). q > 0) sel"

text \<open>\<open>offers.find(o => o.id === id)\<close> for a string \<open>id\<close>.\<close>

definition find_offer :: "jsval list \<Rightarrow> string \<Rightarrow> jsval option" where
  "find_offer ofs k = find (\<lambda>x. get x ''id'' = JStr k) ofs"

text \<open>\<open>Number.isFinite(v)\<close>, with the value when it holds.\<close>

fun finite_number :: "jsval \<Rightarrow> rat option" where
  "finite_number (JNum (Fin m)) = Some m"
| "finite_number _ = None"

text \<open>
  The three quantity handlers bound in \<open>renderCatalog\<close>, up to their closing
  \<open>setView('catalog')\<close>. Reading \<open>offer.maxPerOrder\<close> when \<open>find\<close> returned
  \<open>undefined\<close> throws, before anything is stored.
\<close>

definition inc_click :: "jsval list \<Rightarrow> string \<Rightarrow> selection \<Rightarrow> exn + selection" where
  "inc_click ofs k sel =
     (case find_offer ofs k of
        None \<Rightarrow> Inl TypeError
      | Some offer \<Rightarrow>
          let qty = qty_or_0 sel k;
              nxt = min (qty + 1)
                      (case finite_number (get offer ''maxPerOrder'') of
                         Some m \<Rightarrow> m | None \<Rightarrow> qty + 1)
          in Inr (AList.update k nxt sel))"

definition dec_click :: "string \<Rightarrow> selection \<Rightarrow> selection" where
  "dec_click k sel =
     (let qty = qty_or_0 sel k; nxt = max 0 (qty - 1)
      in if nxt = 0 then AList.delete k sel else AList.update k nxt sel)"

text \<open>\<open>Number.isFinite(v) && v >= 0 ? v : 0\<close>.\<close>

definition safe_qty :: "jsnum \<Rightarrow> rat" where
  "safe_qty v = (case v of Fin x \<Rightarrow> if x \<ge> 0 then x else 0 | _ \<Rightarrow> 0)"

text \<open>
  The \<open>change\<close> handler of a quantity input; \<open>v\<close> is \<open>Number(String(inp.value).trim())\<close>,
  the number the engine reads from the text of the input.
\<close>

definition qty_change :: "jsval list \<Rightarrow> string \<Rightarrow> jsnum \<Rightarrow> selection \<Rightarrow> exn + selection" where
  "qty_change ofs k v sel =
     (case find_offer ofs k of
        None \<Rightarrow> Inl TypeError
      | Some offer \<Rightarrow>
          let safe = safe_qty v;
              mx = (case finite_number (get offer ''maxPerOrder'') of
                      Some m \<Rightarrow> m | None \<Rightarrow> safe);
              bounded = min safe mx
          in Inr (if bounded = 0 then AList.delete k sel else AList.update k bounded sel))"







section \<open>Validator\<close>

definition is_space :: "char \<Rightarrow> bool" where
  "is_space c = (c \<in> set [CHR 0x09, CHR 0x0A, CHR 0x0B, CHR 0x0C, CHR 0x0D, CHR '' ''])"

definition trim :: "string \<Rightarrow> string" where
  "trim s = rev (dropWhile is_space (rev (dropWhile is_space s)))"

text \<open>
  The regular expression \<open>/.+@.+\..+/\<close>, tested anywhere in the string; \<open>.\<close> matches
  every character but a line terminator.
\<close>

definition re_any :: "char \<Rightarrow> bool" where
  "re_any c = (c \<noteq> CHR 0x0A \<and> c \<noteq> CHR 0x0D)"

fun re_dot_label :: "string \<Rightarrow> bool" where
  "re_dot_label [] = False"
| "re_dot_label (c # cs) =
     ((c = CHR ''.'' \<and> (case cs of [] \<Rightarrow> False | d # _ \<Rightarrow> re_any d)) \<or>
      (re_any c \<and> re_dot_label cs))"

fun re_domain :: "string \<Rightarrow> bool" where
  "re_domain [] = False"
| "re_domain (c # cs) = (re_any c \<and> re_dot_label cs)"

fun isValidEmail :: "string \<Rightarrow> bool" where
  "isValidEmail (a # b # cs) =
     ((re_any a \<and> b = CHR ''@'' \<and> re_domain cs) \<or> isValidEmail (b # cs))"
| "isValidEmail _ = False"

section \<open>The widget\<close>

datatype hstatus = Idle | Checking | Ok | Err

record health =
  status :: hstatus
  code :: jsval
  last_at :: nat

datatype view = ViewCatalog | ViewCheckout | ViewConfirm | ViewError | ViewLoading

text \<open>
  What is rendered into the body and footer of the modal, with what its controls have
  captured: the offers, the selection as it was when the catalog was rendered, and
  \<open>haveItems\<close> of the checkout. The markup itself is not modelled.
\<close>

datatype screen = Blank | LoadingScreen string | ErrorScreen "string option" string
  | CatalogScreen "jsval list" selection | CheckoutScreen "jsval list" bool
  | ConfirmScreen jsval

record form =
  buyer_name :: string
  buyer_email :: string
  recipient_email :: string

record payload =
  p_name :: string
  p_buyer_email :: string
  p_recipient_email :: string
  p_items :: "(string \<times> rat) list"

text \<open>
  The asynchronous operations that have been started and have not settled: a catalog read
  of \<open>fetchOffersOnce\<close> with the callbacks \<open>setView\<close> attached to it, a purchase, and a
  health probe.
\<close>

datatype continuation = ThenRenderCatalog | ThenRenderCheckout

datatype task = CatalogRead continuation | Purchase payload | Probe

record widget =
  isOpen :: bool
  modal_open :: bool
  offersCache :: "catalog option"
  selected :: selection
  view :: view
  lastErrorMessage :: string
  lastOrder :: jsval
  health :: health
  screen :: screen
  pending :: "task list"
  timer_armed :: bool

definition init :: widget where
  "init = \<lparr>isOpen = False, modal_open = False, offersCache = None, selected = [],
           view = ViewCatalog, lastErrorMessage = [], lastOrder = JNull,
           health = \<lparr>status = Idle, code = JStr [], last_at = 0\<rparr>,
           screen = Blank, pending = [], timer_armed = True\<rparr>"

subsection \<open>Rendering\<close>

definition renderLoading :: "string option \<Rightarrow> widget \<Rightarrow> widget" where
  "renderLoading msg s = s\<lparr>screen := LoadingScreen (or_string msg ''Loading...'')\<rparr>"

definition renderError :: "string option \<Rightarrow> string \<Rightarrow> widget \<Rightarrow> widget" where
  "renderError msg c s = s\<lparr>screen := ErrorScreen msg c\<rparr>"

definition renderCatalog :: "jsval list \<Rightarrow> widget \<Rightarrow> widget" where
  "renderCatalog ofs s = s\<lparr>screen := CatalogScreen ofs (selected s)\<rparr>"

definition renderCheckout :: "jsval list \<Rightarrow> widget \<Rightarrow> widget" where
  "renderCheckout ofs s = s\<lparr>screen := CheckoutScreen ofs (getSelectedItems (selected s) \<noteq> [])\<rparr>"

text \<open>
  \<open>renderConfirm\<close> throws before it writes anything when \<open>order.giftCards\<close> is truthy
  and has no \<open>map\<close> (it is not an array), or is an array with a \<open>null\<close> element, whose
  \<open>code\<close> is then read.
\<close>

definition renderConfirm_throws :: "jsval \<Rightarrow> bool" where
  "renderConfirm_throws order =
     (let g = get order ''giftCards''
      in truthy g \<and> (\<not> isArray g \<or> JNull \<in> set (elems g)))"

definition renderConfirm :: "jsval \<Rightarrow> widget \<Rightarrow> exn option \<times> widget" where
  "renderConfirm order s =
     (if renderConfirm_throws order then (Some TypeError, s)
      else (None, s\<lparr>screen := ConfirmScreen order\<rparr>))"

text \<open>The controls of one card of the catalog, as \<open>renderCatalog\<close> writes them.\<close>

definition card_id :: "js_engine \<Rightarrow> jsval \<Rightarrow> string" where
  "card_id eng x =
     (if truthy (get x ''id'') then js_String (numToString eng) (get x ''id'') else [])"

definition rendered_qty :: "selection \<Rightarrow> jsval \<Rightarrow> rat" where
  "rendered_qty sel x = (case get x ''id'' of JStr k \<Rightarrow> qty_or_0 sel k | _ \<Rightarrow> 0)"

definition reachMax :: "selection \<Rightarrow> jsval \<Rightarrow> bool" where
  "reachMax sel x =
     (case get x ''maxPerOrder'' of
        JNum (Fin m) \<Rightarrow> rendered_qty sel x \<ge> m
      | JNum NegInf \<Rightarrow> True
      | _ \<Rightarrow> False)"

subsection \<open>CatalogCache and the view controller\<close>

text \<open>
  The callbacks \<open>setView\<close> attaches to \<open>fetchOffersOnce()\<close>: render on success, and on
  failure store the message and render the error, leaving \<open>view\<close> as it is.
\<close>

definition on_catalog :: "js_engine \<Rightarrow> continuation \<Rightarrow> exn + catalog \<Rightarrow> widget \<Rightarrow> widget" where
  "on_catalog eng k r s =
     (case r of
        Inr c \<Rightarrow>
          (case k of ThenRenderCatalog \<Rightarrow> renderCatalog (offers c) s
           | ThenRenderCheckout \<Rightarrow> renderCheckout (offers c) s)
      | Inl e \<Rightarrow>
          (let s1 = s\<lparr>lastErrorMessage := message_or_UNKNOWN eng e\<rparr>
           in renderError None (sanitizeErrorCode eng (Some (lastErrorMessage s1))) s1))"

text \<open>
  A call of \<open>fetchOffersOnce\<close>: with the cache filled it returns the cache, and the
  callback runs before any other event is handled; with the cache empty it starts a read,
  which stays pending until it settles.
\<close>

definition fetchOffersOnce_call :: "js_engine \<Rightarrow> continuation \<Rightarrow> widget \<Rightarrow> widget" where
  "fetchOffersOnce_call eng k s =
     (case offersCache s of
        Some c \<Rightarrow> on_catalog eng k (Inr c) s
      | None \<Rightarrow> s\<lparr>pending := pending s @ [CatalogRead k]\<rparr>)"

text \<open>The read of \<open>fetchOffersOnce\<close> settles: the cache is filled on success only.\<close>

definition fetchOffersOnce_settle ::
  "js_engine \<Rightarrow> continuation \<Rightarrow> response option \<Rightarrow> widget \<Rightarrow> widget" where
  "fetchOffersOnce_settle eng k fetched s =
     (case fetchOffersOnce_resume eng fetched of
        Inr c \<Rightarrow> on_catalog eng k (Inr c) (s\<lparr>offersCache := Some c\<rparr>)
      | Inl e \<Rightarrow> on_catalog eng k (Inl e) s)"

definition setView :: "js_engine \<Rightarrow> view \<Rightarrow> string option \<Rightarrow> widget \<Rightarrow> exn option \<times> widget" where
  "setView eng next loadingMessage s =
     (let s1 = s\<lparr>view := next\<rparr>
      in case next of
           ViewLoading \<Rightarrow> (None, renderLoading loadingMessage s1)
         | ViewError \<Rightarrow>
             (None, renderError None (sanitizeErrorCode eng (Some (lastErrorMessage s1))) s1)
         | ViewCatalog \<Rightarrow>
             (None, fetchOffersOnce_call eng ThenRenderCatalog
                      (renderLoading (Some ''Loading offers...'') s1))
         | ViewCheckout \<Rightarrow> (None, fetchOffersOnce_call eng ThenRenderCheckout s1)
         | ViewConfirm \<Rightarrow>
             (if truthy (lastOrder s1) then renderConfirm (lastOrder s1) s1
              else (None, renderError (Some ''Missing order'') ''UNKNOWN'' s1)))"

subsection \<open>HealthMonitor\<close>

text \<open>
  \<open>runHealthCheck\<close> up to its \<open>fetch\<close>, and from the point where the \<open>fetch\<close> has
  settled; an aborted \<open>fetch\<close> rejects. \<open>now\<close> is \<open>Date.now()\<close>.
\<close>

definition runHealthCheck_call :: "nat \<Rightarrow> widget \<Rightarrow> widget" where
  "runHealthCheck_call now s =
     s\<lparr>health := \<lparr>status = Checking, code = JStr [], last_at = now\<rparr>,
       pending := pending s @ [Probe]\<rparr>"

definition runHealthCheck_resume :: "nat \<Rightarrow> response option \<Rightarrow> widget \<Rightarrow> widget" where
  "runHealthCheck_resume now fetched s =
     (case fetched of
        None \<Rightarrow> s\<lparr>health := \<lparr>status = Err, code = JStr ''NETWORK'', last_at = now\<rparr>\<rparr>
      | Some resp \<Rightarrow>
          if ok resp then s\<lparr>health := \<lparr>status = Ok, code = JStr [], last_at = now\<rparr>\<rparr>
          else
            let c1 = (case body resp of
                        None \<Rightarrow> code (health s)
                      | Some data \<Rightarrow>
                          if truthy (js_and data (get data ''error''))
                          then get data ''error'' else code (health s));
                c2 = (if \<not> truthy c1 then JStr ''REQUEST_FAILED'' else c1)
            in s\<lparr>health := \<lparr>status = Err, code = c2, last_at = now\<rparr>\<rparr>)"

subsection \<open>Opening, closing and submitting\<close>

definition openModal :: "js_engine \<Rightarrow> nat \<Rightarrow> widget \<Rightarrow> widget" where
  "openModal eng now s =
     (if isOpen s then s\<lparr>modal_open := True\<rparr>
      else runHealthCheck_call now
             (snd (setView eng ViewCatalog None (s\<lparr>isOpen := True, modal_open := True\<rparr>))))"

definition closeModal :: "widget \<Rightarrow> widget" where
  "closeModal s = s\<lparr>modal_open := False\<rparr>"

text \<open>
  The click handler of the submit button up to its \<open>await\<close>: validation, then the loading
  view and the request. The inline hints that validation shows or hides are markup.
\<close>

definition submit_click :: "js_engine \<Rightarrow> form \<Rightarrow> bool \<Rightarrow> widget \<Rightarrow> widget" where
  "submit_click eng f haveItems s =
     (let nm = trim (buyer_name f); be = trim (buyer_email f); re = trim (recipient_email f);
          valid = (nm \<noteq> [] \<and> isValidEmail be \<and> isValidEmail re \<and> haveItems)
      in if \<not> valid then s
         else let s1 = snd (setView eng ViewLoading (Some ''Submitting order...'') s)
              in s1\<lparr>pending := pending s1 @
                      [Purchase \<lparr>p_name = nm, p_buyer_email = be, p_recipient_email = re,
                                 p_items = getSelectedItems (selected s1)\<rparr>]\<rparr>)"

text \<open>The \<open>catch\<close> block of the submit handler.\<close>

definition submit_catch :: "js_engine \<Rightarrow> exn \<Rightarrow> widget \<Rightarrow> widget" where
  "submit_catch eng e s =
     snd (setView eng ViewError None (s\<lparr>lastErrorMessage := message_or_UNKNOWN eng e\<rparr>))"

text \<open>The submit handler from the point where \<open>submitPurchase\<close> has settled.\<close>

definition submit_settle :: "js_engine \<Rightarrow> response option \<Rightarrow> widget \<Rightarrow> widget" where
  "submit_settle eng fetched s =
     (case submitPurchase_resume eng fetched of
        Inr res \<Rightarrow>
          (case setView eng ViewConfirm None (s\<lparr>lastOrder := res\<rparr>) of
             (None, s1) \<Rightarrow> s1
           | (Some e, s1) \<Rightarrow> submit_catch eng e s1)
      | Inl e \<Rightarrow> submit_catch eng e s)"

subsection \<open>Events\<close>

text \<open>
  What the single thread handles, one at a time: the clicks and keys of the user, the timer
  of the passive health check, and the settling of a pending operation (the \<open>i\<close>-th of
  \<open>pending\<close>, with what its \<open>fetch\<close> settled with). A control inside the modal can be
  clicked only while the modal is shown and the control is rendered and enabled; the
  floating button and the Escape key are always there. The quantity controls are named
  by the position of their card.
\<close>

datatype event = ClickFab | ClickClose | ClickBackdrop | KeyEscape | ClickRetry | TimerFired
  | ClickBack | ClickCancel | ClickCheckout | ClickInc nat | ClickDec nat
  | ChangeQty nat jsnum | ClickSubmit form | ClickDone | Settle nat "response option"

definition remove_nth :: "nat \<Rightarrow> 'a list \<Rightarrow> 'a list" where
  "remove_nth i xs = take i xs @ drop (Suc i) xs"

definition settle :: "js_engine \<Rightarrow> nat \<Rightarrow> task \<Rightarrow> response option \<Rightarrow> widget \<Rightarrow> widget" where
  "settle eng now t fetched s =
     (case t of
        CatalogRead k \<Rightarrow> fetchOffersOnce_settle eng k fetched s
      | Purchase _ \<Rightarrow> submit_settle eng fetched s
      | Probe \<Rightarrow> runHealthCheck_resume now fetched s)"

text \<open>A quantity handler that returned, followed by its \<open>setView('catalog')\<close>.\<close>

definition after_qty :: "js_engine \<Rightarrow> widget \<Rightarrow> exn + selection \<Rightarrow> widget" where
  "after_qty eng s r =
     (case r of Inl _ \<Rightarrow> s
      | Inr sel \<Rightarrow> snd (setView eng ViewCatalog None (s\<lparr>selected := sel\<rparr>)))"

fun step :: "js_engine \<Rightarrow> nat \<Rightarrow> widget \<Rightarrow> event \<Rightarrow> widget" where
  "step eng now s ClickFab = openModal eng now s"
| "step eng now s ClickClose = (if modal_open s then closeModal s else s)"
| "step eng now s ClickBackdrop = (if modal_open s then closeModal s else s)"
| "step eng now s KeyEscape = closeModal s"
| "step eng now s ClickRetry = (if modal_open s then runHealthCheck_call now s else s)"
| "step eng now s TimerFired =
     (if timer_armed s then runHealthCheck_call now (s\<lparr>timer_armed := False\<rparr>) else s)"
| "step eng now s ClickBack =
     (case screen s of
        ErrorScreen _ _ \<Rightarrow> if modal_open s then snd (setView eng ViewCatalog None s) else s
      | CheckoutScreen _ _ \<Rightarrow> if modal_open s then snd (setView eng ViewCatalog None s) else s
      | _ \<Rightarrow> s)"
| "step eng now s ClickCancel =
     (case screen s of
        CatalogScreen _ _ \<Rightarrow> if modal_open s then closeModal s else s
      | _ \<Rightarrow> s)"
| "step eng now s ClickCheckout =
     (case screen s of
        CatalogScreen ofs shown \<Rightarrow>
          if modal_open s \<and> countSelectedItems shown \<noteq> 0
          then snd (setView eng ViewCheckout None s) else s
      | _ \<Rightarrow> s)"
| "step eng now s (ClickInc i) =
     (case screen s of
        CatalogScreen ofs shown \<Rightarrow>
          if modal_open s \<and> i < length ofs \<and> \<not> reachMax shown (ofs ! i)
          then after_qty eng s (inc_click ofs (card_id eng (ofs ! i)) (selected s)) else s
      | _ \<Rightarrow> s)"
| "step eng now s (ClickDec i) =
     (case screen s of
        CatalogScreen ofs shown \<Rightarrow>
          if modal_open s \<and> i < length ofs
          then after_qty eng s (Inr (dec_click (card_id eng (ofs ! i)) (selected s))) else s
      | _ \<Rightarrow> s)"
| "step eng now s (ChangeQty i v) =
     (case screen s of
        CatalogScreen ofs shown \<Rightarrow>
          if modal_open s \<and> i < length ofs
          then after_qty eng s (qty_change ofs (card_id eng (ofs ! i)) v (selected s)) else s
      | _ \<Rightarrow> s)"
| "step eng now s (ClickSubmit f) =
     (case screen s of
        CheckoutScreen ofs haveItems \<Rightarrow>
          if modal_open s \<and> haveItems then submit_click eng f haveItems s else s
      | _ \<Rightarrow> s)"
| "step eng now s ClickDone =
     (case screen s of
        ConfirmScreen _ \<Rightarrow> if modal_open s then closeModal s else s
      | _ \<Rightarrow> s)"
| "step eng now s (Settle i fetched) =
     (if i < length (pending s)
      then settle eng now (pending s ! i) fetched (s\<lparr>pending := remove_nth i (pending s)\<rparr>)
      else s)"

text \<open>A run of the widget: each event with the time at which it is handled.\<close>

fun run :: "js_engine \<Rightarrow> widget \<Rightarrow> (nat \<times> event) list \<Rightarrow> widget" where
  "run eng s [] = s"
| "run eng s ((now, ev) # evs) = run eng (step eng now s ev) evs"

definition reachable :: "js_engine \<Rightarrow> widget \<Rightarrow> bool" where
  "reachable eng s = (\<exists>evs. s = run eng init evs)"

text \<open>The pending operations of one kind.\<close>

fun is_probe :: "task \<Rightarrow> bool" where
  "is_probe Probe = True"
| "is_probe _ = False"

fun is_catalog_read :: "task \<Rightarrow> bool" where
  "is_catalog_read (CatalogRead _) = True"
| "is_catalog_read _ = False"

definition probes_in_flight :: "widget \<Rightarrow> nat" where
  "probes_in_flight s = length (filter is_probe (pending s))"

definition reads_in_flight :: "widget \<Rightarrow> nat" where
  "reads_in_flight s = length (filter is_catalog_read (pending s))"

subsection \<open>Example data\<close>

text \<open>
  An engine for the examples (none of them prints a number, and all their strings are ASCII),
  the catalog of one active offer at 500 minor units with at most 2 per order, a valid
  form and an order.
\<close>

definition demo_engine :: js_engine where
  "demo_engine = \<lparr>numToString = (\<lambda>_. ''0''), typeErrorMessage = ''TypeError'',
                  syntaxErrorMessage = ''SyntaxError'', toUpperCase = ascii_toUpperCase\<rparr>"

definition demo_offer :: jsval where
  "demo_offer = JObj [(''id'', JStr ''o1''), (''name'', JStr ''Gift''),
                      (''currency'', JStr ''EUR''), (''amountMinor'', JNum (Fin 500)),
                      (''maxPerOrder'', JNum (Fin 2)), (''active'', JBool True)]"

definition demo_catalog_response :: "response option" where
  "demo_catalog_response =
     Some \<lparr>ok = True,
           body = Some (JObj [(''merchantId'', JStr ''demo-merchant-1''),
                              (''offers'', JArr [demo_offer])])\<rparr>"

definition demo_form :: form where
  "demo_form = \<lparr>buyer_name = ''Jane Doe'', buyer_email = ''jane@acme.com'',
                recipient_email = ''recipient@domain.com''\<rparr>"

definition demo_order :: jsval where
  "demo_order = JObj [(''orderId'', JStr ''ord-1''), (''currency'', JStr ''EUR''),
                      (''totalMinor'', JNum (Fin 1000)), (''giftCards'', JArr [])]"

text \<open>
  First open, the catalog arrives, two of the offer are selected, checkout, and a valid
  form is submitted: the purchase is pending, after the probe of the first open.
\<close>

definition demo_until_submitted :: "(nat \<times> event) list" where
  "demo_until_submitted =
     [(0, ClickFab), (1, Settle 0 demo_catalog_response), (2, ClickInc 0), (3, ClickInc 0),
      (4, ClickCheckout), (5, ClickSubmit demo_form)]"

section \<open>The static file handler of the relay service\<close>

text \<open>
  POSIX \<open>path.normalize\<close> and \<open>path.join\<close> of Node, by segments: empty and \<open>.\<close>
  segments are dropped, \<open>..\<close> removes the segment before it, and above the root of an
  absolute path it is dropped.
\<close>

fun split_on :: "char \<Rightarrow> string \<Rightarrow> string list" where
  "split_on c [] = [] # []"
| "split_on c (x # xs) =
     (if x = c then [] # split_on c xs
      else (case split_on c xs of [] \<Rightarrow> [x] # [] | h # t \<Rightarrow> (x # h) # t))"

fun normalize_segments :: "bool \<Rightarrow> string list \<Rightarrow> string list \<Rightarrow> string list" where
  "normalize_segments allowAboveRoot acc [] = acc"
| "normalize_segments allowAboveRoot acc (seg # rest) =
     (if seg = [] \<or> seg = ''.'' then normalize_segments allowAboveRoot acc rest
      else if seg = ''..'' then
        (if acc \<noteq> [] \<and> last acc \<noteq> ''..''
         then normalize_segments allowAboveRoot (butlast acc) rest
         else if allowAboveRoot then normalize_segments allowAboveRoot (acc @ [''..'']) rest
         else normalize_segments allowAboveRoot acc rest)
      else normalize_segments allowAboveRoot (acc @ [seg]) rest)"

definition normalize :: "string \<Rightarrow> string" where
  "normalize path =
     (if path = [] then ''.''
      else let isAbsolute = (hd path = CHR ''/'');
               trailingSeparator = (last path = CHR ''/'');
               p = join ''/'' (normalize_segments (\<not> isAbsolute) [] (split_on (CHR ''/'') path))
           in if p = [] then (if isAbsolute then ''/'' else if trailingSeparator then ''./'' else ''.'')
              else (if isAbsolute then ''/'' else []) @ p @
                   (if trailingSeparator then ''/'' else []))"

definition path_join :: "string \<Rightarrow> string \<Rightarrow> string" where
  "path_join a b =
     (let joined = (if a = [] then b else if b = [] then a else a @ ''/'' @ b)
      in if joined = [] then ''.'' else normalize joined)"

text \<open>\<open>PUBLIC_DIR\<close>, from the directory of the script.\<close>

definition PUBLIC_DIR :: "string \<Rightarrow> string" where
  "PUBLIC_DIR dirname = path_join dirname ''public''"

text \<open>
  What \<open>fs.stat\<close> reports for a path (\<open>None\<close>: an error), and what the handler answers:
  403, 404, or 200 with the stream of the file at a path.
\<close>

datatype fs_entry = IsFile | IsDirectory | IsOther

datatype reply = Forbidden | NotFound | Streamed string

text \<open>
  \<open>serveStatic\<close>, given \<open>decodeURIComponent(urlObj.pathname)\<close>: a path component
  \<open>..%2F\<close> of the request reaches the handler as \<open>../\<close>.
\<close>

definition serveStatic :: "string \<Rightarrow> (string \<Rightarrow> fs_entry option) \<Rightarrow> string \<Rightarrow> reply" where
  "serveStatic dirname stat decoded =
     (let pathname = (if decoded = ''/'' then ''/index.html'' else decoded);
          filePath = normalize (path_join (PUBLIC_DIR dirname) pathname)
      in if \<not> prefix (PUBLIC_DIR dirname) filePath then Forbidden
         else case stat filePath of
                None \<Rightarrow> NotFound
              | Some IsDirectory \<Rightarrow>
                  (let idx = path_join filePath ''index.html''
                   in case stat idx of Some IsFile \<Rightarrow> Streamed idx | _ \<Rightarrow> NotFound)
              | Some _ \<Rightarrow> Streamed filePath)"

text \<open>A path lies within a directory: it is the directory or a path below it.\<close>

definition lies_within :: "string \<Rightarrow> string \<Rightarrow> bool" where
  "lies_within dir p = (p = dir \<or> prefix (dir @ ''/'') p)"

text \<open>A file system with the public tree and, next to it, a directory \<open>public-old\<close>.\<close>

definition demo_stat :: "string \<Rightarrow> fs_entry option" where
  "demo_stat p =
     (if p = ''/srv/app/public'' then Some IsDirectory
      else if p = ''/srv/app/public/index.html'' then Some IsFile
      else if p = ''/srv/app/public-old'' then Some IsDirectory
      else if p = ''/srv/app/public-old/secret.txt'' then Some IsFile
      else None)"

subsection \<open>An invariant of the widget\<close>

text \<open>
  The pending operations other than probes are the catalog reads and the purchases. Before
  the first open nothing is rendered; at most one such operation is pending, and while it
  is, the loading screen is shown, which has no controls; the catalog and the checkout
  are rendered only from a filled cache.
\<close>

fun is_loading :: "screen \<Rightarrow> bool" where
  "is_loading (LoadingScreen _) = True"
| "is_loading _ = False"

fun shows_offers :: "screen \<Rightarrow> bool" where
  "shows_offers (CatalogScreen _ _) = True"
| "shows_offers (CheckoutScreen _ _) = True"
| "shows_offers _ = False"

definition foreground :: "widget \<Rightarrow> task list" where
  "foreground s = filter (\<lambda>t. \<not> is_probe t) (pending s)"

definition widget_inv :: "widget \<Rightarrow> bool" where
  "widget_inv s =
     ((\<not> isOpen s \<longrightarrow> screen s = Blank \<and> \<not> modal_open s) \<and>
      length (foreground s) \<le> 1 \<and>
      (foreground s \<noteq> [] \<longrightarrow> is_loading (screen s)) \<and>
      (shows_offers (screen s) \<longrightarrow> offersCache s \<noteq> None))"

text \<open>The demo run until the order is confirmed.\<close>

definition demo_until_confirmed :: "(nat \<times> event) list" where
  "demo_until_confirmed =
     demo_until_submitted @ [(6, Settle 1 (Some \<lparr>ok = True, body = Some demo_order\<rparr>))]"

subsection \<open>States of the demo run and derived notions\<close>

text \<open>
  The demo run with the catalog loaded, with the purchase pending, and with the order
  confirmed; a run in which the first open comes before the passive check has settled and
  the probe of the open has then succeeded; the purchase answer of a success status with
  an error code; the events that dismiss the widget; the status a probe outcome gives.
\<close>

definition demo_loaded :: widget where
  "demo_loaded = run demo_engine init [(0, ClickFab), (1, Settle 0 demo_catalog_response)]"

definition demo_confirmed :: widget where
  "demo_confirmed = run demo_engine init demo_until_confirmed"

definition is_dismissal :: "event \<Rightarrow> bool" where
  "is_dismissal ev = (ev = ClickDone \<or> ev = ClickClose \<or> ev = ClickBackdrop \<or> ev = KeyEscape)"

definition outcome_status :: "response option \<Rightarrow> hstatus" where
  "outcome_status fetched =
     (case fetched of None \<Rightarrow> Err | Some resp \<Rightarrow> if ok resp then Ok else Err)"

definition demo_two_probes :: widget where
  "demo_two_probes = run demo_engine init
      [(0, TimerFired), (1, ClickFab), (2, Settle 2 (Some \<lparr>ok = True, body = None\<rparr>))]"

definition demo_submitted :: widget where
  "demo_submitted = run demo_engine init demo_until_submitted"

definition demo_error_response :: "response option" where
  "demo_error_response = Some \<lparr>ok = True, body = Some (JObj [(''error'', JStr ''QTY_LIMIT'')])\<rparr>"

text \<open>
  A purchase answered with a success status and a body whose \<open>giftCards\<close> is a string,
  so that the confirmation cannot be rendered; and the run that goes on from there: back to
  the catalog, checkout, a second submission, answered with a success status and the body
  \<open>null\<close>.
\<close>

definition demo_malformed_order :: jsval where
  "demo_malformed_order = JObj [(''orderId'', JStr ''ord-2''), (''giftCards'', JStr ''x'')]"

definition demo_until_malformed :: "(nat \<times> event) list" where
  "demo_until_malformed =
     demo_until_submitted @
     [(6, Settle 1 (Some \<lparr>ok = True, body = Some demo_malformed_order\<rparr>))]"

definition demo_until_erased :: "(nat \<times> event) list" where
  "demo_until_erased =
     demo_until_malformed @
     [(7, ClickBack), (8, ClickCheckout), (9, ClickSubmit demo_form),
      (10, Settle 1 (Some \<lparr>ok = True, body = Some JNull\<rparr>))]"

section \<open>Properties of the string helpers\<close>

lemma replace_char_Nil [simp]: "replace_char x r [] = []"
  by (simp add: replace_char_def)

lemma replace_char_Cons:
  "replace_char x r (c # s) = (if c = x then r else [c]) @ replace_char x r s"
  by (simp add: replace_char_def)

lemma replace_char_append:
  "replace_char x r (s @ t) = replace_char x r s @ replace_char x r t"
  by (simp add: replace_char_def)

lemma escapeHtml_Some_Nil: "escapeHtml (Some []) = []"
  by (simp add: escapeHtml_def or_string_def)

lemma escapeHtml_None: "escapeHtml None = []"
  by (simp add: escapeHtml_def or_string_def)

lemma escapeHtml_Cons:
  "escapeHtml (Some (c # s)) = escape_one c @ escapeHtml (Some s)"
  by (simp add: escapeHtml_def or_string_def replace_char_Cons replace_char_append
      escape_one_def)

lemma escapeHtml_concat: "escapeHtml (Some s) = concat (map escape_one s)"
  by (induction s) (simp_all add: escapeHtml_Some_Nil escapeHtml_Cons)

lemma escape_one_no_markup: "set (escape_one c) \<inter> markup_chars = {}"
  by (simp add: escape_one_def markup_chars_def)

lemma escapeHtml_no_markup: "set (escapeHtml str) \<inter> markup_chars = {}"
proof (cases str)
  case None
  then show ?thesis by (simp add: escapeHtml_None)
next
  case (Some s)
  have "set (concat (map escape_one s)) \<inter> markup_chars = {}"
    using escape_one_no_markup by (induction s) auto
  with Some show ?thesis by (simp add: escapeHtml_concat)
qed

lemma amps_escaped_escape_one:
  "amps_escaped t \<Longrightarrow> amps_escaped (escape_one c @ t)"
  by (simp add: escape_one_def entity_tails_def)

lemma escapeHtml_amps: "amps_escaped (escapeHtml str)"
proof (cases str)
  case None
  then show ?thesis by (simp add: escapeHtml_None)
next
  case (Some s)
  have "amps_escaped (escapeHtml (Some s))"
    by (induction s) (simp_all add: escapeHtml_Some_Nil escapeHtml_Cons amps_escaped_escape_one)
  with Some show ?thesis by simp
qed

lemma ascii_toUpperCase_length [simp]: "length (ascii_toUpperCase s) = length s"
  by (simp add: ascii_toUpperCase_def)

lemma replace_non_word_length [simp]: "length (replace_non_word s) = length s"
  by (simp add: replace_non_word_def)

lemma replace_non_word_Nil_iff [simp]: "replace_non_word s = [] \<longleftrightarrow> s = []"
  by (simp add: replace_non_word_def)

lemma ascii_toUpperCase_Nil_iff [simp]: "ascii_toUpperCase s = [] \<longleftrightarrow> s = []"
  by (simp add: ascii_toUpperCase_def)

lemma toUpperCase_char_lower:
  "c \<in> set lower_letters \<Longrightarrow> toUpperCase_char c \<in> set upper_letters"
  by (auto simp: toUpperCase_char_def lower_letters_def upper_letters_def)

lemma toUpperCase_char_other:
  "c \<notin> set lower_letters \<Longrightarrow> toUpperCase_char c = c"
proof -
  assume "c \<notin> set lower_letters"
  moreover have "map fst (zip lower_letters upper_letters) = lower_letters"
    by (simp add: lower_letters_def upper_letters_def)
  ultimately have "map_of (zip lower_letters upper_letters) c = None"
    by (metis map_of_eq_None_iff set_map)
  then show ?thesis by (simp add: toUpperCase_char_def)
qed

lemma lower_not_word: "c \<in> set lower_letters \<Longrightarrow> \<not> is_word_upper c"
  by (auto simp: is_word_upper_def lower_letters_def upper_letters_def digit_chars_def)

lemma replace_after_upper:
  "(if is_word_upper (toUpperCase_char c) then toUpperCase_char c else CHR ''_'')
     = sanitize_char_by_spec c"
proof (cases "c \<in> set lower_letters")
  case True
  then show ?thesis
    by (simp add: sanitize_char_by_spec_def is_word_upper_def toUpperCase_char_lower)
next
  case False
  then show ?thesis
    by (simp add: sanitize_char_by_spec_def is_word_upper_def toUpperCase_char_other)
qed

lemma replace_non_word_ascii_upper:
  "replace_non_word (ascii_toUpperCase m) = map sanitize_char_by_spec m"
  by (simp add: replace_non_word_def ascii_toUpperCase_def replace_after_upper)

lemma sanitizeErrorCode_other:
  assumes "m \<notin> set known" "m \<noteq> []"
  shows "sanitizeErrorCode eng (Some m) =
           (if toUpperCase eng m = [] then ''UNKNOWN''
            else replace_non_word (toUpperCase eng m))"
  using assms
  by (simp add: sanitizeErrorCode_def known_includes_def or_string_def Let_def)

lemma sanitizeErrorCode_absent:
  assumes "upper_on_ascii eng"
  shows "sanitizeErrorCode eng (Some []) = ''UNKNOWN''" "sanitizeErrorCode eng None = ''UNKNOWN''"
proof -
  have "list_all is_ascii ''UNKNOWN''" by (simp add: is_ascii_def)
  with assms have "toUpperCase eng ''UNKNOWN'' = ascii_toUpperCase ''UNKNOWN''"
    by (simp add: upper_on_ascii_def)
  also have "\<dots> = ''UNKNOWN''"
    by (simp add: ascii_toUpperCase_def toUpperCase_char_def lower_letters_def
        upper_letters_def)
  finally have u: "toUpperCase eng ''UNKNOWN'' = ''UNKNOWN''" .
  have r: "replace_non_word ''UNKNOWN'' = ''UNKNOWN''"
    by (simp add: replace_non_word_def is_word_upper_def upper_letters_def)
  show "sanitizeErrorCode eng (Some []) = ''UNKNOWN''"
    using u r by (simp add: sanitizeErrorCode_def known_includes_def known_def or_string_def)
  show "sanitizeErrorCode eng None = ''UNKNOWN''"
    using u r by (simp add: sanitizeErrorCode_def known_includes_def or_string_def)
qed

lemma sanitizeErrorCode_ascii:
  assumes "upper_on_ascii eng" "m \<notin> set known" "m \<noteq> []" "list_all is_ascii m"
  shows "sanitizeErrorCode eng (Some m) = map sanitize_char_by_spec m"
proof -
  from assms(1,4) have u: "toUpperCase eng m = ascii_toUpperCase m"
    by (simp add: upper_on_ascii_def)
  with assms(2,3) show ?thesis
    by (simp add: sanitizeErrorCode_other replace_non_word_ascii_upper)
qed

lemma upper_on_ascii_demo: "upper_on_ascii demo_engine"
  by (simp add: upper_on_ascii_def demo_engine_def)

text \<open>
  Claim C10: for every input, \<open>escapeHtml\<close> returns a string with no raw
  \<open><\<close>, \<open>>\<close>, double quote or single quote, and in which every ampersand starts one of
  the entities \<open>&amp;\<close>, \<open>&lt;\<close>, \<open>&gt;\<close>, \<open>&quot;\<close>, \<open>&#039;\<close>; the result is the
  input with each of the five characters replaced by its entity.
\<close>

theorem escapeHtml_safe:
  "set (escapeHtml str) \<inter> markup_chars = {} \<and> amps_escaped (escapeHtml str) \<and>
   escapeHtml str = concat (map escape_one (or_string str []))"
proof -
  have "escapeHtml str = concat (map escape_one (or_string str []))"
    by (cases str) (simp_all add: escapeHtml_None escapeHtml_concat or_string_def)
  then show ?thesis
    using escapeHtml_no_markup [of str] escapeHtml_amps [of str] by simp
qed

theorem escapeHtml_safe_witness:
  "escapeHtml (Some ''<a href='x'>&'') = ''&lt;a href=&#039;x&#039;&gt;&amp;'' \<and>
   set (escapeHtml (Some ''<a href='x'>&'')) \<inter> markup_chars = {} \<and>
   amps_escaped (escapeHtml (Some ''<a href='x'>&''))"
  using escapeHtml_safe [of "Some ''<a href='x'>&''"]
  by (simp add: or_string_def escape_one_def markup_chars_def entity_tails_def)

text \<open>
  Claim C8: \<open>sanitizeErrorCode\<close> returns an identifier of the allow-list unchanged; maps
  any other non-empty string to its upper-casing with every character outside
  \<open>A-Z\<close>, \<open>0-9\<close> and underscore replaced by an underscore (\<open>UNKNOWN\<close> would be the
  result only if the upper-casing of a non-empty string were empty, which it is in no
  engine), which for an ASCII string is what the specification says character by
  character; and maps the empty and the absent identifier to \<open>UNKNOWN\<close>. So
  \<open>weird code!\<close> becomes \<open>WEIRD_CODE_\<close>, the empty string \<open>UNKNOWN\<close>, and \<open>NETWORK\<close>
  stays \<open>NETWORK\<close>. The upper-casing is the engine's; what is used of it for the empty
  identifier and the examples is that it upper-cases ASCII strings as every engine does.
\<close>

theorem sanitizeErrorCode_spec:
  "(m \<in> set known \<longrightarrow> sanitizeErrorCode eng (Some m) = m) \<and>
   (m \<notin> set known \<and> m \<noteq> [] \<longrightarrow>
      sanitizeErrorCode eng (Some m) =
        (if toUpperCase eng m = [] then ''UNKNOWN''
         else map (\<lambda>c. if is_word_upper c then c else CHR ''_'') (toUpperCase eng m))) \<and>
   (upper_on_ascii eng \<longrightarrow>
      (m \<notin> set known \<and> m \<noteq> [] \<and> list_all is_ascii m \<longrightarrow>
         sanitizeErrorCode eng (Some m) = map sanitize_char_by_spec m) \<and>
      sanitizeErrorCode eng (Some []) = ''UNKNOWN'' \<and>
      sanitizeErrorCode eng None = ''UNKNOWN'' \<and>
      sanitizeErrorCode eng (Some ''weird code!'') = ''WEIRD_CODE_'') \<and>
   sanitizeErrorCode eng (Some ''NETWORK'') = ''NETWORK''"
proof -
  have k: "m \<in> set known \<Longrightarrow> m \<noteq> []"
    by (auto simp: known_def)
  have a: "m \<in> set known \<longrightarrow> sanitizeErrorCode eng (Some m) = m"
    using k by (simp add: sanitizeErrorCode_def known_includes_def)
  have b: "m \<notin> set known \<and> m \<noteq> [] \<longrightarrow>
      sanitizeErrorCode eng (Some m) =
        (if toUpperCase eng m = [] then ''UNKNOWN''
         else map (\<lambda>c. if is_word_upper c then c else CHR ''_'') (toUpperCase eng m))"
    using sanitizeErrorCode_other [of m eng] by (simp add: replace_non_word_def)
  have c: "sanitizeErrorCode eng (Some m) = map sanitize_char_by_spec m"
    if "upper_on_ascii eng" "m \<notin> set known \<and> m \<noteq> [] \<and> list_all is_ascii m"
    using that by (simp add: sanitizeErrorCode_ascii)
  have d: "sanitizeErrorCode eng (Some []) = ''UNKNOWN'' \<and>
           sanitizeErrorCode eng None = ''UNKNOWN''"
    if "upper_on_ascii eng"
    using that by (simp add: sanitizeErrorCode_absent)
  have e: "sanitizeErrorCode eng (Some ''weird code!'') = ''WEIRD_CODE_''"
    if u: "upper_on_ascii eng"
  proof -
    have "''weird code!'' \<notin> set known" by (simp add: known_def)
    moreover have "list_all is_ascii ''weird code!''" by (simp add: is_ascii_def)
    ultimately have "sanitizeErrorCode eng (Some ''weird code!'')
        = map sanitize_char_by_spec ''weird code!''"
      using u by (simp add: sanitizeErrorCode_ascii)
    also have "\<dots> = ''WEIRD_CODE_''"
      by (simp add: sanitize_char_by_spec_def toUpperCase_char_def lower_letters_def
          upper_letters_def digit_chars_def)
    finally show ?thesis .
  qed
  have f: "sanitizeErrorCode eng (Some ''NETWORK'') = ''NETWORK''"
    by (simp add: sanitizeErrorCode_def known_includes_def known_def)
  from a b c d e f show ?thesis by blast
qed

theorem sanitizeErrorCode_spec_witness:
  "''QTY_LIMIT'' \<in> set known \<and>
   sanitizeErrorCode demo_engine (Some ''QTY_LIMIT'') = ''QTY_LIMIT'' \<and>
   ''No_Upstream-2'' \<notin> set known \<and> ''No_Upstream-2'' \<noteq> [] \<and>
   list_all is_ascii ''No_Upstream-2'' \<and> upper_on_ascii demo_engine \<and>
   toUpperCase demo_engine ''No_Upstream-2'' = ''NO_UPSTREAM-2'' \<and>
   sanitizeErrorCode demo_engine (Some ''No_Upstream-2'') = ''NO_UPSTREAM_2'' \<and>
   sanitizeErrorCode demo_engine (Some ''weird code!'') = ''WEIRD_CODE_'' \<and>
   sanitizeErrorCode demo_engine (Some []) = ''UNKNOWN'' \<and>
   sanitizeErrorCode demo_engine None = ''UNKNOWN''"
proof -
  note T = sanitizeErrorCode_spec [of "''QTY_LIMIT''" demo_engine]
  note U = sanitizeErrorCode_spec [of "''No_Upstream-2''" demo_engine]
  have k: "''QTY_LIMIT'' \<in> set known" by (simp add: known_def)
  have n: "''No_Upstream-2'' \<notin> set known" "''No_Upstream-2'' \<noteq> []"
    by (simp_all add: known_def)
  have a: "list_all is_ascii ''No_Upstream-2''" by (simp add: is_ascii_def)
  have u: "upper_on_ascii demo_engine" by (rule upper_on_ascii_demo)
  have t: "toUpperCase demo_engine ''No_Upstream-2'' = ''NO_UPSTREAM-2''"
    by (simp add: demo_engine_def ascii_toUpperCase_def toUpperCase_char_def
        lower_letters_def upper_letters_def)
  from T k have r1: "sanitizeErrorCode demo_engine (Some ''QTY_LIMIT'') = ''QTY_LIMIT''"
    by blast
  from U n a u have "sanitizeErrorCode demo_engine (Some ''No_Upstream-2'')
      = map sanitize_char_by_spec ''No_Upstream-2''" by blast
  also have "\<dots> = ''NO_UPSTREAM_2''"
    by (simp add: sanitize_char_by_spec_def toUpperCase_char_def lower_letters_def
        upper_letters_def digit_chars_def)
  finally have r2: "sanitizeErrorCode demo_engine (Some ''No_Upstream-2'') = ''NO_UPSTREAM_2''" .
  from U u have r3: "sanitizeErrorCode demo_engine (Some ''weird code!'') = ''WEIRD_CODE_''"
    and r4: "sanitizeErrorCode demo_engine (Some []) = ''UNKNOWN''"
    and r5: "sanitizeErrorCode demo_engine None = ''UNKNOWN''" by blast+
  from k n a u t r1 r2 r3 r4 r5 show ?thesis by (intro conjI)
qed

section \<open>The invariant holds in every reachable state\<close>

lemma run_snoc: "run eng s (evs @ [(now, ev)]) = step eng now (run eng s evs) ev"
  by (induction evs arbitrary: s) auto

lemma remove_nth_split:
  "i < length xs \<Longrightarrow> xs = take i xs @ xs ! i # drop (Suc i) xs"
  by (simp add: id_take_nth_drop)

lemma filter_remove_nth_other:
  assumes "i < length xs" "\<not> P (xs ! i)"
  shows "filter P (remove_nth i xs) = filter P xs"
proof -
  have "filter P xs = filter P (take i xs @ xs ! i # drop (Suc i) xs)"
    using remove_nth_split [OF assms(1)] by simp
  with assms(2) show ?thesis by (simp add: remove_nth_def)
qed

lemma filter_remove_nth_hit:
  assumes "i < length xs" "P (xs ! i)"
  shows "Suc (length (filter P (remove_nth i xs))) = length (filter P xs)"
proof -
  have "filter P xs = filter P (take i xs @ xs ! i # drop (Suc i) xs)"
    using remove_nth_split [OF assms(1)] by simp
  with assms(2) show ?thesis by (simp add: remove_nth_def)
qed

lemma inv_init: "widget_inv init"
  by (simp add: widget_inv_def init_def foreground_def)

lemma inv_closeModal: "widget_inv s \<Longrightarrow> isOpen s \<Longrightarrow> widget_inv (closeModal s)"
  by (simp add: widget_inv_def closeModal_def foreground_def)

lemma inv_closeModal': "widget_inv s \<Longrightarrow> widget_inv (closeModal s)"
  by (simp add: widget_inv_def closeModal_def foreground_def)

lemma inv_probe_call: "widget_inv s \<Longrightarrow> widget_inv (runHealthCheck_call now s)"
  by (simp add: widget_inv_def runHealthCheck_call_def foreground_def)

lemma inv_probe_resume: "widget_inv s \<Longrightarrow> widget_inv (runHealthCheck_resume now f s)"
  by (simp add: widget_inv_def runHealthCheck_resume_def foreground_def Let_def split: option.splits)

lemma inv_on_catalog_ok:
  "widget_inv s \<Longrightarrow> foreground s = [] \<Longrightarrow> isOpen s \<Longrightarrow> offersCache s \<noteq> None \<Longrightarrow> widget_inv (on_catalog eng k (Inr c) s)"
  by (simp add: widget_inv_def on_catalog_def renderCatalog_def renderCheckout_def foreground_def split: continuation.splits)

lemma inv_on_catalog_err:
  "widget_inv s \<Longrightarrow> foreground s = [] \<Longrightarrow> isOpen s \<Longrightarrow> widget_inv (on_catalog eng k (Inl e) s)"
  by (simp add: widget_inv_def on_catalog_def renderError_def foreground_def Let_def)

lemma inv_setView_catalog:
  "widget_inv s \<Longrightarrow> foreground s = [] \<Longrightarrow> isOpen s \<Longrightarrow> widget_inv (snd (setView eng ViewCatalog m s))"
  by (auto simp add: widget_inv_def setView_def fetchOffersOnce_call_def renderLoading_def on_catalog_def renderCatalog_def foreground_def Let_def split: option.splits)

lemma inv_setView_checkout:
  "widget_inv s \<Longrightarrow> foreground s = [] \<Longrightarrow> isOpen s \<Longrightarrow> offersCache s \<noteq> None \<Longrightarrow> widget_inv (snd (setView eng ViewCheckout m s))"
  by (auto simp add: widget_inv_def setView_def fetchOffersOnce_call_def on_catalog_def renderCheckout_def foreground_def Let_def split: option.splits)

lemma inv_setView_error:
  "widget_inv s \<Longrightarrow> foreground s = [] \<Longrightarrow> isOpen s \<Longrightarrow> widget_inv (snd (setView eng ViewError m s))"
  by (auto simp add: widget_inv_def setView_def renderError_def foreground_def Let_def)

lemma inv_setView_confirm:
  "widget_inv s \<Longrightarrow> foreground s = [] \<Longrightarrow> isOpen s \<Longrightarrow> widget_inv (snd (setView eng ViewConfirm m s))"
  by (auto simp add: widget_inv_def setView_def renderError_def renderConfirm_def foreground_def Let_def)

lemma inv_isOpen: "widget_inv s \<Longrightarrow> screen s \<noteq> Blank \<Longrightarrow> isOpen s"
  by (auto simp: widget_inv_def)

lemma inv_foreground_Nil: "widget_inv s \<Longrightarrow> \<not> is_loading (screen s) \<Longrightarrow> foreground s = []"
  by (auto simp: widget_inv_def)

lemma inv_cache: "widget_inv s \<Longrightarrow> shows_offers (screen s) \<Longrightarrow> offersCache s \<noteq> None"
  by (auto simp: widget_inv_def)

lemma inv_selected_update [simp]: "widget_inv (s\<lparr>selected := sel\<rparr>) = widget_inv s"
  by (simp add: widget_inv_def foreground_def)

lemma foreground_selected_update [simp]: "foreground (s\<lparr>selected := sel\<rparr>) = foreground s"
  by (simp add: foreground_def)

lemma inv_lastOrder_update [simp]: "widget_inv (s\<lparr>lastOrder := x\<rparr>) = widget_inv s"
  by (simp add: widget_inv_def foreground_def)

lemma foreground_lastOrder_update [simp]: "foreground (s\<lparr>lastOrder := x\<rparr>) = foreground s"
  by (simp add: foreground_def)

lemma inv_lastErrorMessage_update [simp]: "widget_inv (s\<lparr>lastErrorMessage := x\<rparr>) = widget_inv s"
  by (simp add: widget_inv_def foreground_def)

lemma foreground_lastErrorMessage_update [simp]:
  "foreground (s\<lparr>lastErrorMessage := x\<rparr>) = foreground s"
  by (simp add: foreground_def)

lemma inv_timer_update [simp]: "widget_inv (s\<lparr>timer_armed := x\<rparr>) = widget_inv s"
  by (simp add: widget_inv_def foreground_def)

lemma inv_openModal: "widget_inv s \<Longrightarrow> widget_inv (openModal eng now s)"
proof (cases "isOpen s")
  case True
  assume "widget_inv s"
  with True show ?thesis by (simp add: openModal_def widget_inv_def foreground_def)
next
  case False
  assume i: "widget_inv s"
  let ?s1 = "s\<lparr>isOpen := True, modal_open := True\<rparr>"
  from i False have "screen s = Blank" by (simp add: widget_inv_def)
  with i have f: "foreground s = []" by (simp add: inv_foreground_Nil)
  from i f have "widget_inv ?s1" "foreground ?s1 = []" "isOpen ?s1"
    by (simp_all add: widget_inv_def foreground_def)
  then have "widget_inv (snd (setView eng ViewCatalog None ?s1))"
    by (rule inv_setView_catalog)
  then show ?thesis using False by (simp add: openModal_def inv_probe_call)
qed

lemma inv_after_qty:
  assumes "widget_inv s" "screen s = CatalogScreen ofs shown"
  shows "widget_inv (after_qty eng s r)"
proof (cases r)
  case (Inl e)
  with assms show ?thesis by (simp add: after_qty_def)
next
  case (Inr sel)
  from assms have "isOpen s" "foreground s = []"
    by (simp_all add: inv_isOpen inv_foreground_Nil)
  with assms(1) have "widget_inv (snd (setView eng ViewCatalog None (s\<lparr>selected := sel\<rparr>)))"
    by (intro inv_setView_catalog) simp_all
  with Inr show ?thesis by (simp add: after_qty_def)
qed

lemma inv_submit_click:
  assumes "widget_inv s" "screen s = CheckoutScreen ofs h"
  shows "widget_inv (submit_click eng f h s)"
proof -
  from assms have "isOpen s" "foreground s = []"
    by (simp_all add: inv_isOpen inv_foreground_Nil)
  with assms show ?thesis
    by (simp add: submit_click_def Let_def setView_def renderLoading_def widget_inv_def
        foreground_def)
qed

lemma inv_submit_catch:
  "widget_inv s \<Longrightarrow> foreground s = [] \<Longrightarrow> isOpen s \<Longrightarrow> widget_inv (submit_catch eng e s)"
  by (simp add: submit_catch_def inv_setView_error)

lemma setView_confirm_keeps:
  "setView eng ViewConfirm m s = (r, s1) \<Longrightarrow>
     foreground s1 = foreground s \<and> isOpen s1 = isOpen s"
  by (auto simp add: setView_def renderConfirm_def renderError_def foreground_def Let_def
      split: if_splits)

lemma inv_submit_settle:
  assumes "widget_inv s" "foreground s = []" "isOpen s"
  shows "widget_inv (submit_settle eng fetched s)"
proof (cases "submitPurchase_resume eng fetched")
  case (Inl e)
  with assms show ?thesis by (simp add: submit_settle_def inv_submit_catch)
next
  case (Inr res)
  obtain r s1 where v: "setView eng ViewConfirm None (s\<lparr>lastOrder := res\<rparr>) = (r, s1)"
    by (cases "setView eng ViewConfirm None (s\<lparr>lastOrder := res\<rparr>)")
  from assms have "widget_inv (snd (setView eng ViewConfirm None (s\<lparr>lastOrder := res\<rparr>)))"
    by (intro inv_setView_confirm) simp_all
  with v have i1: "widget_inv s1" by simp
  from setView_confirm_keeps [OF v] assms have k: "foreground s1 = []" "isOpen s1" by simp_all
  show ?thesis
  proof (cases r)
    case None
    with Inr v i1 show ?thesis by (simp add: submit_settle_def)
  next
    case (Some e)
    with Inr v i1 k show ?thesis by (simp add: submit_settle_def inv_submit_catch)
  qed
qed

lemma inv_fetch_settle:
  assumes "widget_inv s" "foreground s = []" "isOpen s"
  shows "widget_inv (fetchOffersOnce_settle eng k fetched s)"
proof (cases "fetchOffersOnce_resume eng fetched")
  case (Inl e)
  with assms show ?thesis by (simp add: fetchOffersOnce_settle_def inv_on_catalog_err)
next
  case (Inr c)
  from assms have "widget_inv (s\<lparr>offersCache := Some c\<rparr>)"
    by (simp add: widget_inv_def foreground_def)
  moreover from assms have "foreground (s\<lparr>offersCache := Some c\<rparr>) = []"
    by (simp add: foreground_def)
  ultimately have "widget_inv (on_catalog eng k (Inr c) (s\<lparr>offersCache := Some c\<rparr>))"
    using assms(3) by (intro inv_on_catalog_ok) simp_all
  with Inr show ?thesis by (simp add: fetchOffersOnce_settle_def)
qed

lemma inv_settle_event:
  assumes "widget_inv s" "i < length (pending s)"
  shows "widget_inv (settle eng now (pending s ! i) fetched (s\<lparr>pending := remove_nth i (pending s)\<rparr>))"
proof (cases "is_probe (pending s ! i)")
  case True
  let ?s1 = "s\<lparr>pending := remove_nth i (pending s)\<rparr>"
  from True assms(2) have "foreground ?s1 = foreground s"
    by (simp add: foreground_def filter_remove_nth_other)
  with assms(1) have "widget_inv ?s1" by (simp add: widget_inv_def)
  moreover from True have "pending s ! i = Probe" by (cases "pending s ! i") simp_all
  ultimately show ?thesis by (simp add: settle_def inv_probe_resume)
next
  case False
  let ?s1 = "s\<lparr>pending := remove_nth i (pending s)\<rparr>"
  from False assms(2) have "Suc (length (foreground ?s1)) = length (foreground s)"
    using filter_remove_nth_hit [of i "pending s" "\<lambda>t. \<not> is_probe t"]
    by (simp add: foreground_def)
  moreover from assms(1) have "length (foreground s) \<le> 1" by (simp add: widget_inv_def)
  ultimately have "length (foreground ?s1) = 0" by linarith
  then have f1: "foreground ?s1 = []" by simp
  from False assms(2) have "pending s ! i \<in> set (foreground s)"
    by (simp add: foreground_def)
  then have "foreground s \<noteq> []" by auto
  with assms(1) have "is_loading (screen s)" by (simp add: widget_inv_def)
  then have "screen s \<noteq> Blank" by auto
  with assms(1) have o: "isOpen s" by (rule inv_isOpen)
  from assms(1) f1 \<open>is_loading (screen s)\<close> have i1: "widget_inv ?s1"
    by (cases "screen s") (simp_all add: widget_inv_def)
  from o have o1: "isOpen ?s1" by simp
  show ?thesis
  proof (cases "pending s ! i")
    case (CatalogRead k)
    then show ?thesis using inv_fetch_settle [OF i1 f1 o1] by (simp add: settle_def)
  next
    case (Purchase p)
    then show ?thesis using inv_submit_settle [OF i1 f1 o1] by (simp add: settle_def)
  next
    case Probe
    with False show ?thesis by simp
  qed
qed

lemma inv_step: "widget_inv s \<Longrightarrow> widget_inv (step eng now s ev)"
proof (cases ev)
  case ClickFab
  assume "widget_inv s" with ClickFab show ?thesis by (simp add: inv_openModal)
next
  case ClickBack
  assume i: "widget_inv s"
  show ?thesis
  proof (cases "screen s")
    case (ErrorScreen m c)
    with i have "isOpen s" "foreground s = []" by (simp_all add: inv_isOpen inv_foreground_Nil)
    with i ErrorScreen ClickBack show ?thesis by (simp add: inv_setView_catalog)
  next
    case (CheckoutScreen ofs h)
    with i have "isOpen s" "foreground s = []" by (simp_all add: inv_isOpen inv_foreground_Nil)
    with i CheckoutScreen ClickBack show ?thesis by (simp add: inv_setView_catalog)
  qed (use i ClickBack in simp_all)
next
  case ClickCheckout
  assume i: "widget_inv s"
  show ?thesis
  proof (cases "screen s")
    case (CatalogScreen ofs shown)
    with i have "isOpen s" "foreground s = []" "offersCache s \<noteq> None"
      by (simp_all add: inv_isOpen inv_foreground_Nil inv_cache)
    with i CatalogScreen ClickCheckout show ?thesis by (simp add: inv_setView_checkout)
  qed (use i ClickCheckout in simp_all)
next
  case (ClickInc n)
  assume i: "widget_inv s"
  with ClickInc show ?thesis by (cases "screen s") (simp_all add: inv_after_qty)
next
  case (ClickDec n)
  assume i: "widget_inv s"
  with ClickDec show ?thesis by (cases "screen s") (simp_all add: inv_after_qty)
next
  case (ChangeQty n v)
  assume i: "widget_inv s"
  with ChangeQty show ?thesis by (cases "screen s") (simp_all add: inv_after_qty)
next
  case (ClickSubmit f)
  assume i: "widget_inv s"
  with ClickSubmit show ?thesis by (cases "screen s") (simp_all add: inv_submit_click)
next
  case (Settle n fetched)
  assume i: "widget_inv s"
  with Settle show ?thesis by (simp add: inv_settle_event)
next
  case ClickCancel
  assume i: "widget_inv s"
  with ClickCancel show ?thesis by (cases "screen s") (simp_all add: inv_closeModal')
next
  case ClickDone
  assume i: "widget_inv s"
  with ClickDone show ?thesis by (cases "screen s") (simp_all add: inv_closeModal')
qed (simp_all add: inv_closeModal' inv_probe_call)

lemma inv_run: "widget_inv s \<Longrightarrow> widget_inv (run eng s evs)"
  by (induction evs arbitrary: s) (auto simp: inv_step)

lemma reachable_inv: "reachable eng s \<Longrightarrow> widget_inv s"
  by (auto simp: reachable_def inv_run inv_init)

section \<open>Error classification of the catalog read\<close>

lemma fetchOffersOnce_resume_not_ok:
  "\<not> ok resp \<Longrightarrow> fetchOffersOnce_resume eng (Some resp) = Inl (Error ''REQUEST_FAILED'')"
  by (simp add: fetchOffersOnce_resume_def and_then_def try_catch_def resp_json_def
      split: option.splits sum.splits)

lemma fetchOffersOnce_resume_never_BAD_RESPONSE:
  "fetchOffersOnce_resume eng fetched \<noteq> Inl (Error ''BAD_RESPONSE'')"
  by (auto simp add: fetchOffersOnce_resume_def and_then_def try_catch_def resp_json_def
      split: option.splits sum.splits if_splits)

lemmas run_defs = init_def openModal_def closeModal_def setView_def renderLoading_def
  fetchOffersOnce_call_def runHealthCheck_call_def remove_nth_def settle_def
  fetchOffersOnce_settle_def on_catalog_def renderError_def message_or_UNKNOWN_def
  message_def or_string_def

text \<open>
  Claim C1: a catalog read that receives a non-success status whose body carries an error
  code should fail with that code. It does not: the \<open>throw\<close> of the code is inside a
  \<open>try\<close> whose \<open>catch\<close> is empty, so on the 401 body \<open>{error: "UNAUTHORISED"}\<close>
  \<open>fetchOffersOnce\<close> fails with \<open>REQUEST_FAILED\<close> and the error screen of the first
  open shows \<open>REQUEST_FAILED\<close>, while \<open>submitPurchase\<close> passes the code of the same
  response through.
\<close>

theorem fetchOffersOnce_drops_error_code:
  "fetchOffersOnce_resume eng
       (Some \<lparr>ok = False, body = Some (JObj [(''error'', JStr ''UNAUTHORISED'')])\<rparr>)
     = Inl (Error ''REQUEST_FAILED'') \<and>
   screen (run eng init
       [(0, ClickFab),
        (1, Settle 0 (Some \<lparr>ok = False,
                           body = Some (JObj [(''error'', JStr ''UNAUTHORISED'')])\<rparr>))])
     = ErrorScreen None ''REQUEST_FAILED'' \<and>
   submitPurchase_resume eng
       (Some \<lparr>ok = False, body = Some (JObj [(''error'', JStr ''UNAUTHORISED'')])\<rparr>)
     = Inl (Error ''UNAUTHORISED'')"
  by (simp add: fetchOffersOnce_resume_not_ok run_defs sanitizeErrorCode_def
      known_includes_def known_def submitPurchase_resume_def and_then_def try_catch_def
      resp_json_def js_and_def)

theorem fetchOffersOnce_drops_error_code_witness:
  "fetchOffersOnce_resume demo_engine
       (Some \<lparr>ok = False, body = Some (JObj [(''error'', JStr ''UNAUTHORISED'')])\<rparr>)
     = Inl (Error ''REQUEST_FAILED'')"
  using fetchOffersOnce_drops_error_code [of demo_engine] by (rule conjunct1)

text \<open>
  Claim C4: a catalog read that receives a success status whose body parses but has no
  \<open>offers\<close> array should fail with \<open>BAD_RESPONSE\<close>. It fails with \<open>PARSE\<close>: the
  \<open>throw\<close> of \<open>BAD_RESPONSE\<close> is inside the \<open>try\<close> whose \<open>catch\<close> throws
  \<open>PARSE\<close>, and no outcome at all makes \<open>fetchOffersOnce\<close> fail with
  \<open>BAD_RESPONSE\<close>.
\<close>

theorem fetchOffersOnce_missing_offers_is_PARSE:
  "fetchOffersOnce_resume eng
       (Some \<lparr>ok = True, body = Some (JObj [(''merchantId'', JStr ''demo-merchant-1'')])\<rparr>)
     = Inl (Error ''PARSE'') \<and>
   fetchOffersOnce_resume eng fetched \<noteq> Inl (Error ''BAD_RESPONSE'')"
  using fetchOffersOnce_resume_never_BAD_RESPONSE [of eng fetched]
  by (simp add: fetchOffersOnce_resume_def and_then_def try_catch_def resp_json_def)

theorem fetchOffersOnce_missing_offers_is_PARSE_witness:
  "fetchOffersOnce_resume demo_engine
       (Some \<lparr>ok = True, body = Some (JObj [(''merchantId'', JStr ''demo-merchant-1'')])\<rparr>)
     = Inl (Error ''PARSE'')"
  using fetchOffersOnce_missing_offers_is_PARSE [of demo_engine None] by (rule conjunct1)

section \<open>The static file handler\<close>

text \<open>
  Claim C9: the static file handler should stream no file outside the public root. Its
  guard compares strings, \<open>filePath.startsWith(PUBLIC_DIR)\<close>, so a path in a sibling
  directory whose name starts with \<open>public\<close> passes it: with the root
  \<open>/srv/app/public\<close>, the request path \<open>/..%2Fpublic-old/secret.txt\<close> is answered with
  the stream of \<open>/srv/app/public-old/secret.txt\<close>, which does not lie within the root. A
  path that leaves the prefix altogether is answered with 403.
\<close>

theorem serveStatic_streams_sibling_directory:
  "PUBLIC_DIR ''/srv/app'' = ''/srv/app/public'' \<and>
   serveStatic ''/srv/app'' demo_stat ''/../public-old/secret.txt''
     = Streamed ''/srv/app/public-old/secret.txt'' \<and>
   \<not> lies_within (PUBLIC_DIR ''/srv/app'') ''/srv/app/public-old/secret.txt'' \<and>
   serveStatic ''/srv/app'' demo_stat ''/../../etc/passwd'' = Forbidden"
  by code_simp

section \<open>Single flight of the catalog read\<close>

text \<open>
  Claim C2, as stated: a second call of \<open>fetchOffersOnce\<close> made while the read of a first
  call is outstanding starts no second read. It does: after one call from the initial state
  the cache is still empty and one read is pending, and a second call leaves two reads
  pending.
\<close>

theorem second_call_starts_second_read:
  "offersCache (fetchOffersOnce_call demo_engine ThenRenderCatalog init) = None \<and>
   reads_in_flight (fetchOffersOnce_call demo_engine ThenRenderCatalog init) = 1 \<and>
   reads_in_flight
     (fetchOffersOnce_call demo_engine ThenRenderCheckout
        (fetchOffersOnce_call demo_engine ThenRenderCatalog init)) = 2"
  by (simp add: fetchOffersOnce_call_def init_def reads_in_flight_def)

lemma reads_le_foreground: "reads_in_flight s \<le> length (foreground s)"
proof -
  have "length (filter is_catalog_read xs) \<le> length (filter (\<lambda>t. \<not> is_probe t) xs)" for xs
  proof (induction xs)
    case (Cons t ts)
    then show ?case by (cases t) simp_all
  qed simp
  then show ?thesis by (simp add: reads_in_flight_def foreground_def)
qed

text \<open>
  Claim C2, amended: a call of \<open>fetchOffersOnce\<close> starts a read of its own whenever the
  cache is empty, also while another read is outstanding, and starts none once the cache is
  filled, which a read that succeeds does. The widget itself never makes the second call:
  in every state it can reach, at most one read of \<open>fetchOffersOnce\<close> is outstanding
  (the reads of the health probes are counted apart).
\<close>

theorem fetchOffersOnce_reads:
  "(offersCache s = None \<longrightarrow>
      reads_in_flight (fetchOffersOnce_call eng k s) = Suc (reads_in_flight s)) \<and>
   (offersCache s \<noteq> None \<longrightarrow> pending (fetchOffersOnce_call eng k s) = pending s) \<and>
   (fetchOffersOnce_resume eng fetched = Inr c \<longrightarrow>
      offersCache (fetchOffersOnce_settle eng k fetched s) = Some c) \<and>
   (reachable eng s \<longrightarrow> reads_in_flight s \<le> 1)"
proof -
  have a: "offersCache s = None \<longrightarrow>
      reads_in_flight (fetchOffersOnce_call eng k s) = Suc (reads_in_flight s)"
    by (simp add: fetchOffersOnce_call_def reads_in_flight_def)
  have b: "offersCache s \<noteq> None \<longrightarrow> pending (fetchOffersOnce_call eng k s) = pending s"
    by (auto simp add: fetchOffersOnce_call_def on_catalog_def renderCatalog_def
        renderCheckout_def split: continuation.splits)
  have c: "fetchOffersOnce_resume eng fetched = Inr c \<longrightarrow>
      offersCache (fetchOffersOnce_settle eng k fetched s) = Some c"
    by (auto simp add: fetchOffersOnce_settle_def on_catalog_def renderCatalog_def
        renderCheckout_def split: continuation.splits)
  have d: "reachable eng s \<longrightarrow> reads_in_flight s \<le> 1"
  proof
    assume "reachable eng s"
    then have "length (foreground s) \<le> 1" using reachable_inv by (simp add: widget_inv_def)
    with reads_le_foreground [of s] show "reads_in_flight s \<le> 1" by linarith
  qed
  from a b c d show ?thesis by blast
qed

lemma reachable_run: "reachable eng (run eng init evs)"
  by (auto simp: reachable_def)

theorem fetchOffersOnce_reads_witness:
  "offersCache init = None \<and>
   reads_in_flight (fetchOffersOnce_call demo_engine ThenRenderCatalog init)
     = Suc (reads_in_flight init) \<and>
   offersCache demo_loaded \<noteq> None \<and>
   pending (fetchOffersOnce_call demo_engine ThenRenderCheckout demo_loaded)
     = pending demo_loaded \<and>
   fetchOffersOnce_resume demo_engine demo_catalog_response
     = Inr \<lparr>merchantId = JStr ''demo-merchant-1'', offers = [demo_offer]\<rparr> \<and>
   offersCache (fetchOffersOnce_settle demo_engine ThenRenderCatalog demo_catalog_response init)
     = Some \<lparr>merchantId = JStr ''demo-merchant-1'', offers = [demo_offer]\<rparr> \<and>
   reachable demo_engine demo_loaded \<and> reads_in_flight demo_loaded \<le> 1"
proof -
  have h1: "offersCache init = None" by (simp add: init_def)
  have h2: "offersCache demo_loaded \<noteq> None" unfolding demo_loaded_def by code_simp
  have h3: "fetchOffersOnce_resume demo_engine demo_catalog_response
     = Inr \<lparr>merchantId = JStr ''demo-merchant-1'', offers = [demo_offer]\<rparr>"
    by code_simp
  have h4: "reachable demo_engine demo_loaded"
    unfolding demo_loaded_def by (rule reachable_run)
  show ?thesis
    using h1 h2 h3 h4
      fetchOffersOnce_reads [of init demo_engine ThenRenderCatalog demo_catalog_response
        "\<lparr>merchantId = JStr ''demo-merchant-1'', offers = [demo_offer]\<rparr>"]
      fetchOffersOnce_reads [of demo_loaded demo_engine ThenRenderCheckout]
    by blast
qed

section \<open>Closing and reopening\<close>

text \<open>
  Claim C3, as stated: after the widget is dismissed from the confirm view, the next open
  shows the catalog view. It shows the confirm view: in the demo run, after Done and a click
  on the floating button, \<open>view\<close> is \<open>confirm\<close> and the confirmation of the order is on
  the screen.
\<close>

theorem reopen_shows_confirm_again:
  "modal_open demo_confirmed \<and> screen demo_confirmed = ConfirmScreen demo_order \<and>
   \<not> modal_open (step demo_engine 7 demo_confirmed ClickDone) \<and>
   modal_open (step demo_engine 8 (step demo_engine 7 demo_confirmed ClickDone) ClickFab) \<and>
   view (step demo_engine 8 (step demo_engine 7 demo_confirmed ClickDone) ClickFab)
     = ViewConfirm \<and>
   screen (step demo_engine 8 (step demo_engine 7 demo_confirmed ClickDone) ClickFab)
     = ConfirmScreen demo_order"
  unfolding demo_confirmed_def by code_simp

text \<open>
  Claim C3, amended: after the widget is dismissed from the confirm view (Done, close
  button, backdrop or Escape) the modal is hidden and the selection is unchanged, and the
  next open brings back the very state that was dismissed: the confirm view, with the
  selection and every other stored datum unchanged.
\<close>

theorem dismiss_then_open_restores:
  assumes "reachable eng s" "modal_open s" "screen s = ConfirmScreen order" "is_dismissal ev"
  shows "\<not> modal_open (step eng t1 s ev) \<and>
         selected (step eng t1 s ev) = selected s \<and>
         step eng t2 (step eng t1 s ev) ClickFab = s"
proof -
  from assms(1) have "widget_inv s" by (rule reachable_inv)
  with assms(2) have o: "isOpen s" by (auto simp: widget_inv_def)
  from assms(4) have "step eng t1 s ev = closeModal s"
    using assms(2,3) by (auto simp: is_dismissal_def)
  with o assms(2) show ?thesis by (simp add: closeModal_def openModal_def)
qed

theorem dismiss_then_open_restores_witness:
  "reachable demo_engine demo_confirmed \<and> modal_open demo_confirmed \<and>
   screen demo_confirmed = ConfirmScreen demo_order \<and> is_dismissal KeyEscape \<and>
   \<not> modal_open (step demo_engine 7 demo_confirmed KeyEscape) \<and>
   selected (step demo_engine 7 demo_confirmed KeyEscape) = [(''o1'', 2)] \<and>
   step demo_engine 8 (step demo_engine 7 demo_confirmed KeyEscape) ClickFab = demo_confirmed"
proof -
  have h1: "reachable demo_engine demo_confirmed"
    unfolding demo_confirmed_def by (rule reachable_run)
  have h2: "modal_open demo_confirmed" unfolding demo_confirmed_def by code_simp
  have h3: "screen demo_confirmed = ConfirmScreen demo_order"
    unfolding demo_confirmed_def by code_simp
  have h4: "is_dismissal KeyEscape" by (simp add: is_dismissal_def)
  have h5: "selected demo_confirmed = [(''o1'', 2)]" unfolding demo_confirmed_def by code_simp
  show ?thesis
    using h1 h2 h3 h4 h5 dismiss_then_open_restores [OF h1 h2 h3 h4, of 7 8] by simp
qed

section \<open>Health probes\<close>

text \<open>
  Claim C5, as stated: at most one probe is in flight, and the outcome of a superseded probe
  never overwrites the status of a newer one. Opening the widget before the passive check
  has settled leaves two probes in flight; when the newer one settles the status is
  \<open>ok\<close>, and when the older one then fails the status becomes \<open>error\<close> with code
  \<open>NETWORK\<close>.
\<close>

theorem superseded_probe_overwrites_status:
  "probes_in_flight (run demo_engine init [(0, TimerFired), (1, ClickFab)]) = 2 \<and>
   status (health (run demo_engine init
      [(0, TimerFired), (1, ClickFab), (2, Settle 2 (Some \<lparr>ok = True, body = None\<rparr>))]))
     = Ok \<and>
   health (run demo_engine init
      [(0, TimerFired), (1, ClickFab), (2, Settle 2 (Some \<lparr>ok = True, body = None\<rparr>)),
       (3, Settle 0 None)])
     = \<lparr>status = Err, code = JStr ''NETWORK'', last_at = 3\<rparr>"
  by code_simp

lemma runHealthCheck_resume_status:
  "status (health (runHealthCheck_resume now fetched s)) = outcome_status fetched \<and>
   last_at (health (runHealthCheck_resume now fetched s)) = now"
  by (simp add: runHealthCheck_resume_def outcome_status_def Let_def split: option.splits)

text \<open>
  Claim C5, amended: every trigger of \<open>runHealthCheck\<close> sets the status to
  \<open>checking\<close> and starts one more probe, cancelling none of those in flight; whenever a
  probe settles, whichever it is, the status becomes the outcome of that probe (\<open>ok\<close> on
  a success status, \<open>error\<close> otherwise) with the time of settling.
\<close>

theorem probes_are_independent:
  "pending (runHealthCheck_call now s) = pending s @ [Probe] \<and>
   probes_in_flight (runHealthCheck_call now s) = Suc (probes_in_flight s) \<and>
   status (health (runHealthCheck_call now s)) = Checking \<and>
   (i < length (pending s) \<and> pending s ! i = Probe \<longrightarrow>
      status (health (step eng now s (Settle i fetched))) = outcome_status fetched \<and>
      last_at (health (step eng now s (Settle i fetched))) = now)"
  by (simp add: runHealthCheck_call_def probes_in_flight_def settle_def
      runHealthCheck_resume_status)

theorem probes_are_independent_witness:
  "0 < length (pending demo_two_probes) \<and> pending demo_two_probes ! 0 = Probe \<and>
   status (health demo_two_probes) = Ok \<and>
   status (health (step demo_engine 3 demo_two_probes (Settle 0 None))) = Err \<and>
   last_at (health (step demo_engine 3 demo_two_probes (Settle 0 None))) = 3"
proof -
  have h1: "0 < length (pending demo_two_probes)" unfolding demo_two_probes_def by code_simp
  have h2: "pending demo_two_probes ! 0 = Probe" unfolding demo_two_probes_def by code_simp
  have h3: "status (health demo_two_probes) = Ok" unfolding demo_two_probes_def by code_simp
  show ?thesis
    using h1 h2 h3 probes_are_independent [of 3 demo_two_probes 0 demo_engine None]
    by (simp add: outcome_status_def)
qed

section \<open>The stored order\<close>

lemma lastOrder_on_catalog [simp]: "lastOrder (on_catalog eng k r s) = lastOrder s"
  by (simp add: on_catalog_def renderCatalog_def renderCheckout_def renderError_def Let_def
      split: sum.splits continuation.splits)

lemma lastOrder_setView [simp]: "lastOrder (snd (setView eng v m s)) = lastOrder s"
  by (cases v)
     (simp_all add: setView_def renderLoading_def renderError_def renderConfirm_def
       fetchOffersOnce_call_def Let_def split: option.splits)

lemma lastOrder_after_qty [simp]: "lastOrder (after_qty eng s r) = lastOrder s"
  by (simp add: after_qty_def split: sum.splits)

lemma lastOrder_openModal [simp]: "lastOrder (openModal eng now s) = lastOrder s"
  by (simp add: openModal_def runHealthCheck_call_def)

lemma lastOrder_submit_click [simp]: "lastOrder (submit_click eng f h s) = lastOrder s"
  by (simp add: submit_click_def Let_def)

lemma submit_catch_result:
  "lastOrder (submit_catch eng e s) = lastOrder s \<and>
   view (submit_catch eng e s) = ViewError \<and>
   lastErrorMessage (submit_catch eng e s) = message_or_UNKNOWN eng e \<and>
   screen (submit_catch eng e s)
     = ErrorScreen None (sanitizeErrorCode eng (Some (message_or_UNKNOWN eng e)))"
  by (simp add: submit_catch_def setView_def renderError_def)

lemma submit_settle_Inl:
  "submitPurchase_resume eng fetched = Inl e \<Longrightarrow>
   submit_settle eng fetched s = submit_catch eng e s"
  by (simp add: submit_settle_def)

lemma submit_settle_Inr:
  "submitPurchase_resume eng fetched = Inr res \<Longrightarrow>
   lastOrder (submit_settle eng fetched s) = res"
proof -
  assume r: "submitPurchase_resume eng fetched = Inr res"
  obtain x s1 where v: "setView eng ViewConfirm None (s\<lparr>lastOrder := res\<rparr>) = (x, s1)"
    by (cases "setView eng ViewConfirm None (s\<lparr>lastOrder := res\<rparr>)")
  have "lastOrder (snd (setView eng ViewConfirm None (s\<lparr>lastOrder := res\<rparr>))) = res"
    by simp
  with v have "lastOrder s1 = res" by simp
  with r v show ?thesis
    by (cases x) (simp_all add: submit_settle_def submit_catch_result)
qed

lemma lastOrder_settle_other:
  "\<not> (\<exists>p. t = Purchase p) \<Longrightarrow> lastOrder (settle eng now t fetched s) = lastOrder s"
  by (cases t)
     (simp_all add: settle_def fetchOffersOnce_settle_def runHealthCheck_resume_def Let_def
       split: sum.splits option.splits)

lemma lastOrder_step:
  assumes "lastOrder (step eng now s ev) \<noteq> lastOrder s"
  shows "\<exists>i fetched p. ev = Settle i fetched \<and> i < length (pending s) \<and>
           pending s ! i = Purchase p \<and>
           submitPurchase_resume eng fetched = Inr (lastOrder (step eng now s ev))"
proof (cases ev)
  case (Settle i fetched)
  with assms have i: "i < length (pending s)" by (auto split: if_splits)
  let ?s1 = "s\<lparr>pending := remove_nth i (pending s)\<rparr>"
  from Settle i assms have ne: "lastOrder (settle eng now (pending s ! i) fetched ?s1) \<noteq> lastOrder ?s1"
    by simp
  then obtain p where p: "pending s ! i = Purchase p"
    using lastOrder_settle_other [of "pending s ! i" eng now fetched ?s1] by blast
  with ne have ne': "lastOrder (submit_settle eng fetched ?s1) \<noteq> lastOrder ?s1"
    by (simp add: settle_def)
  have "\<exists>res. submitPurchase_resume eng fetched = Inr res"
  proof (cases "submitPurchase_resume eng fetched")
    case (Inl e)
    with ne' show ?thesis by (simp add: submit_settle_Inl submit_catch_result)
  qed simp
  then obtain res where r: "submitPurchase_resume eng fetched = Inr res" by blast
  then have "lastOrder (submit_settle eng fetched ?s1) = res" by (rule submit_settle_Inr)
  with Settle i p r show ?thesis by (simp add: settle_def)
next
  case ClickBack
  with assms show ?thesis by (cases "screen s") (simp_all split: if_splits)
next
  case ClickCancel
  with assms show ?thesis by (cases "screen s") (simp_all add: closeModal_def split: if_splits)
next
  case ClickCheckout
  with assms show ?thesis by (cases "screen s") (simp_all split: if_splits)
next
  case (ClickInc n)
  with assms show ?thesis by (cases "screen s") (simp_all split: if_splits)
next
  case (ClickDec n)
  with assms show ?thesis by (cases "screen s") (simp_all split: if_splits)
next
  case (ChangeQty n v)
  with assms show ?thesis by (cases "screen s") (simp_all split: if_splits)
next
  case (ClickSubmit f)
  with assms show ?thesis by (cases "screen s") (simp_all split: if_splits)
next
  case ClickDone
  with assms show ?thesis by (cases "screen s") (simp_all add: closeModal_def split: if_splits)
qed (use assms in \<open>simp_all add: closeModal_def runHealthCheck_call_def split: if_splits\<close>)

lemma submitPurchase_resume_error_field:
  assumes "ok resp" "body resp = Some data" "get data ''error'' = JStr c" "c \<noteq> []"
  shows "submitPurchase_resume eng (Some resp) = Inl (Error c)"
proof -
  from assms(3) have "truthy data" by (cases data) simp_all
  with assms show ?thesis
    by (simp add: submitPurchase_resume_def and_then_def try_catch_def resp_json_def js_and_def)
qed

lemma submitPurchase_resume_returns_iff:
  "(submitPurchase_resume eng fetched = Inr res) =
     (\<exists>resp. fetched = Some resp \<and> ok resp \<and> body resp = Some res \<and>
             \<not> truthy (js_and res (get res ''error'')))"
  by (auto simp add: submitPurchase_resume_def and_then_def try_catch_def resp_json_def
      split: option.splits sum.splits if_splits)

lemma submit_settle_returned_view:
  assumes "submitPurchase_resume eng fetched = Inr res"
  shows "(view (submit_settle eng fetched s) = ViewConfirm \<or>
          view (submit_settle eng fetched s) = ViewError) \<and>
         (\<not> truthy res \<longrightarrow>
            view (submit_settle eng fetched s) = ViewConfirm \<and>
            screen (submit_settle eng fetched s)
              = ErrorScreen (Some ''Missing order'') ''UNKNOWN'') \<and>
         (truthy res \<and> renderConfirm_throws res \<longrightarrow>
            view (submit_settle eng fetched s) = ViewError)"
  using assms
  by (simp add: submit_settle_def setView_def renderConfirm_def renderError_def
      submit_catch_def Let_def)

text \<open>
  Claim C6, as stated: the error view shows the error code of the body, and on every
  failing submission path the stored order is unchanged. The error view shows the
  sanitized code: for the body \<open>{error: "card-declined"}\<close> with a success status the
  purchase fails with \<open>card-declined\<close> and the screen shows \<open>CARD_DECLINED\<close>. And the
  order is stored before the confirmation is rendered: in the demo run no order is stored
  when the form is submitted; a success status with a body whose \<open>giftCards\<close> is the
  string \<open>x\<close> ends on the error view with that body stored as the order; and when the
  next submission is answered with a success status and the body \<open>null\<close>, the stored
  order is \<open>null\<close> again and the confirm view shows the error \<open>Missing order\<close>.
\<close>

theorem purchase_paths_counterexample:
  "submitPurchase_resume demo_engine
      (Some \<lparr>ok = True, body = Some (JObj [(''error'', JStr ''card-declined'')])\<rparr>)
     = Inl (Error ''card-declined'') \<and>
   pending demo_submitted ! 1 = Purchase \<lparr>p_name = ''Jane Doe'', p_buyer_email = ''jane@acme.com'',
           p_recipient_email = ''recipient@domain.com'', p_items = [(''o1'', 2)]\<rparr> \<and>
   view (step demo_engine 6 demo_submitted
      (Settle 1 (Some \<lparr>ok = True, body = Some (JObj [(''error'', JStr ''card-declined'')])\<rparr>)))
     = ViewError \<and>
   screen (step demo_engine 6 demo_submitted
      (Settle 1 (Some \<lparr>ok = True, body = Some (JObj [(''error'', JStr ''card-declined'')])\<rparr>)))
     = ErrorScreen None ''CARD_DECLINED'' \<and>
   lastOrder demo_submitted = JNull \<and>
   view (run demo_engine init demo_until_malformed) = ViewError \<and>
   lastOrder (run demo_engine init demo_until_malformed) = demo_malformed_order \<and>
   view (run demo_engine init demo_until_erased) = ViewConfirm \<and>
   screen (run demo_engine init demo_until_erased)
     = ErrorScreen (Some ''Missing order'') ''UNKNOWN'' \<and>
   lastOrder (run demo_engine init demo_until_erased) = JNull"
  unfolding demo_submitted_def by code_simp

text \<open>
  Claim C6, amended: when a purchase is answered with a success status and a body whose
  \<open>error\<close> field is a non-empty string, \<open>submitPurchase\<close> fails with that string, the
  view becomes \<open>error\<close>, the stored message is that string, the error screen shows the
  sanitized form of it (the string itself when it is on the allow-list, as \<open>QTY_LIMIT\<close>
  is), and the stored order is unchanged. Whenever \<open>submitPurchase\<close> fails, the stored
  order is unchanged and the view becomes \<open>error\<close>. \<open>submitPurchase\<close> returns exactly
  when the answer has a success status and a body that parses and carries no truthy
  \<open>error\<close> field, and it returns that body, whatever it is; the body is then stored as
  the order before anything is rendered, and the view becomes \<open>confirm\<close> or \<open>error\<close>:
  for a falsy body (as \<open>null\<close>) the view is \<open>confirm\<close> and shows the error
  \<open>Missing order\<close> with code \<open>UNKNOWN\<close>, and for a body whose \<open>giftCards\<close> is
  truthy and not an array, or an array with a \<open>null\<close> element, the view is \<open>error\<close>.
  No event changes the stored order but the settling of a purchase for which
  \<open>submitPurchase\<close> returns.
\<close>

theorem purchase_error_keeps_order:
  "(ok resp \<and> body resp = Some data \<and> get data ''error'' = JStr c \<and> c \<noteq> [] \<longrightarrow>
      submitPurchase_resume eng (Some resp) = Inl (Error c) \<and>
      view (submit_settle eng (Some resp) s) = ViewError \<and>
      lastErrorMessage (submit_settle eng (Some resp) s) = c \<and>
      screen (submit_settle eng (Some resp) s)
        = ErrorScreen None (sanitizeErrorCode eng (Some c)) \<and>
      (c \<in> set known \<longrightarrow> screen (submit_settle eng (Some resp) s) = ErrorScreen None c) \<and>
      lastOrder (submit_settle eng (Some resp) s) = lastOrder s) \<and>
   (submitPurchase_resume eng fetched = Inl e \<longrightarrow>
      lastOrder (submit_settle eng fetched s) = lastOrder s \<and>
      view (submit_settle eng fetched s) = ViewError) \<and>
   ((submitPurchase_resume eng fetched = Inr res) =
      (\<exists>r. fetched = Some r \<and> ok r \<and> body r = Some res \<and>
           \<not> truthy (js_and res (get res ''error'')))) \<and>
   (submitPurchase_resume eng fetched = Inr res \<longrightarrow>
      lastOrder (submit_settle eng fetched s) = res \<and>
      (view (submit_settle eng fetched s) = ViewConfirm \<or>
       view (submit_settle eng fetched s) = ViewError) \<and>
      (\<not> truthy res \<longrightarrow>
         view (submit_settle eng fetched s) = ViewConfirm \<and>
         screen (submit_settle eng fetched s)
           = ErrorScreen (Some ''Missing order'') ''UNKNOWN'') \<and>
      (truthy res \<and> renderConfirm_throws res \<longrightarrow>
         view (submit_settle eng fetched s) = ViewError)) \<and>
   (lastOrder (step eng now s ev) \<noteq> lastOrder s \<longrightarrow>
      (\<exists>i fetched' p. ev = Settle i fetched' \<and> i < length (pending s) \<and>
         pending s ! i = Purchase p \<and>
         submitPurchase_resume eng fetched' = Inr (lastOrder (step eng now s ev))))"
proof -
  have a: "submitPurchase_resume eng (Some resp) = Inl (Error c) \<and>
      view (submit_settle eng (Some resp) s) = ViewError \<and>
      lastErrorMessage (submit_settle eng (Some resp) s) = c \<and>
      screen (submit_settle eng (Some resp) s)
        = ErrorScreen None (sanitizeErrorCode eng (Some c)) \<and>
      (c \<in> set known \<longrightarrow> screen (submit_settle eng (Some resp) s) = ErrorScreen None c) \<and>
      lastOrder (submit_settle eng (Some resp) s) = lastOrder s"
    if h: "ok resp" "body resp = Some data" "get data ''error'' = JStr c" "c \<noteq> []"
  proof -
    have r: "submitPurchase_resume eng (Some resp) = Inl (Error c)"
      using h by (rule submitPurchase_resume_error_field)
    have m: "message_or_UNKNOWN eng (Error c) = c"
      using h(4) by (simp add: message_or_UNKNOWN_def message_def or_string_def)
    have k: "c \<in> set known \<Longrightarrow> sanitizeErrorCode eng (Some c) = c"
      by (simp add: sanitizeErrorCode_def known_includes_def)
    from r m k show ?thesis
      by (simp add: submit_settle_Inl submit_catch_result)
  qed
  have b: "submitPurchase_resume eng fetched = Inl e \<longrightarrow>
      lastOrder (submit_settle eng fetched s) = lastOrder s \<and>
      view (submit_settle eng fetched s) = ViewError"
    by (simp add: submit_settle_Inl submit_catch_result)
  note c = submitPurchase_resume_returns_iff [of eng fetched res]
  have d: "submitPurchase_resume eng fetched = Inr res \<longrightarrow>
      lastOrder (submit_settle eng fetched s) = res \<and>
      (view (submit_settle eng fetched s) = ViewConfirm \<or>
       view (submit_settle eng fetched s) = ViewError) \<and>
      (\<not> truthy res \<longrightarrow>
         view (submit_settle eng fetched s) = ViewConfirm \<and>
         screen (submit_settle eng fetched s)
           = ErrorScreen (Some ''Missing order'') ''UNKNOWN'') \<and>
      (truthy res \<and> renderConfirm_throws res \<longrightarrow>
         view (submit_settle eng fetched s) = ViewError)"
    using submit_settle_Inr [of eng fetched res s]
      submit_settle_returned_view [of eng fetched res s] by blast
  note e = lastOrder_step [of eng now s ev]
  show ?thesis
    apply (intro conjI)
    subgoal using a by blast
    subgoal by (rule b)
    subgoal by (rule c)
    subgoal by (rule d)
    subgoal using e by blast
    done
qed

theorem purchase_error_keeps_order_witness:
  "submitPurchase_resume demo_engine demo_error_response = Inl (Error ''QTY_LIMIT'') \<and>
   view (submit_settle demo_engine demo_error_response demo_submitted) = ViewError \<and>
   screen (submit_settle demo_engine demo_error_response demo_submitted)
     = ErrorScreen None ''QTY_LIMIT'' \<and>
   lastOrder (submit_settle demo_engine demo_error_response demo_submitted) = JNull \<and>
   submitPurchase_resume demo_engine None = Inl (Error ''NETWORK'') \<and>
   lastOrder (submit_settle demo_engine None demo_submitted) = JNull \<and>
   lastOrder (step demo_engine 6 demo_submitted
                (Settle 1 (Some \<lparr>ok = True, body = Some demo_order\<rparr>))) = demo_order \<and>
   submitPurchase_resume demo_engine (Some \<lparr>ok = True, body = Some demo_order\<rparr>)
     = Inr demo_order \<and>
   submitPurchase_resume demo_engine (Some \<lparr>ok = True, body = Some JNull\<rparr>) = Inr JNull \<and>
   view (submit_settle demo_engine (Some \<lparr>ok = True, body = Some JNull\<rparr>) demo_submitted)
     = ViewConfirm \<and>
   screen (submit_settle demo_engine (Some \<lparr>ok = True, body = Some JNull\<rparr>) demo_submitted)
     = ErrorScreen (Some ''Missing order'') ''UNKNOWN'' \<and>
   submitPurchase_resume demo_engine (Some \<lparr>ok = True, body = Some demo_malformed_order\<rparr>)
     = Inr demo_malformed_order \<and>
   truthy demo_malformed_order \<and> renderConfirm_throws demo_malformed_order \<and>
   lastOrder (submit_settle demo_engine
                (Some \<lparr>ok = True, body = Some demo_malformed_order\<rparr>) demo_submitted)
     = demo_malformed_order \<and>
   view (submit_settle demo_engine
           (Some \<lparr>ok = True, body = Some demo_malformed_order\<rparr>) demo_submitted)
     = ViewError"
proof -
  let ?R = "\<lparr>ok = True, body = Some (JObj [(''error'', JStr ''QTY_LIMIT'')])\<rparr>"
  let ?D = "JObj [(''error'', JStr ''QTY_LIMIT'')]"
  let ?O = "Some \<lparr>ok = True, body = Some demo_order\<rparr>"
  let ?N = "Some \<lparr>ok = True, body = Some JNull\<rparr>"
  let ?M = "Some \<lparr>ok = True, body = Some demo_malformed_order\<rparr>"
  have h1: "ok ?R \<and> body ?R = Some ?D \<and> get ?D ''error'' = JStr ''QTY_LIMIT'' \<and>
            ''QTY_LIMIT'' \<noteq> []" by simp
  have h2: "''QTY_LIMIT'' \<in> set known" by (simp add: known_def)
  have h3: "submitPurchase_resume demo_engine None = Inl (Error ''NETWORK'')"
    by (simp add: submitPurchase_resume_def)
  have h4: "lastOrder demo_submitted = JNull" unfolding demo_submitted_def by code_simp
  have h5: "lastOrder (step demo_engine 6 demo_submitted (Settle 1 ?O)) = demo_order"
    unfolding demo_submitted_def by code_simp
  have h6: "demo_order \<noteq> JNull" by (simp add: demo_order_def)
  from h4 h5 h6
  have h7: "lastOrder (step demo_engine 6 demo_submitted (Settle 1 ?O)) \<noteq> lastOrder demo_submitted"
    by simp
  have h8: "\<not> truthy JNull" by simp
  have h9: "truthy demo_malformed_order \<and> renderConfirm_throws demo_malformed_order"
    by (simp add: demo_malformed_order_def renderConfirm_throws_def)
  have hN: "\<exists>r. ?N = Some r \<and> ok r \<and> body r = Some JNull \<and>
              \<not> truthy (js_and JNull (get JNull ''error''))"
    by (simp add: js_and_def)
  have hM: "\<exists>r. ?M = Some r \<and> ok r \<and> body r = Some demo_malformed_order \<and>
              \<not> truthy (js_and demo_malformed_order (get demo_malformed_order ''error''))"
    by (simp add: js_and_def demo_malformed_order_def)
  note T = purchase_error_keeps_order [of ?R ?D "''QTY_LIMIT''" demo_engine demo_submitted
      None "Error ''NETWORK''" JNull 6 "Settle 1 ?O"]
  note TN = purchase_error_keeps_order [of ?R ?D "''QTY_LIMIT''" demo_engine demo_submitted
      ?N "Error ''NETWORK''" JNull 6 "Settle 1 ?O"]
  note TM = purchase_error_keeps_order [of ?R ?D "''QTY_LIMIT''" demo_engine demo_submitted
      ?M "Error ''NETWORK''" demo_malformed_order 6 "Settle 1 ?O"]
  note A = mp [OF T [THEN conjunct1] h1]
  from A have a1: "submitPurchase_resume demo_engine demo_error_response
      = Inl (Error ''QTY_LIMIT'')"
    unfolding demo_error_response_def by (rule conjunct1)
  from A have a2: "view (submit_settle demo_engine demo_error_response demo_submitted)
      = ViewError"
    unfolding demo_error_response_def by (elim conjE)
  from A h2 have a3: "screen (submit_settle demo_engine demo_error_response demo_submitted)
      = ErrorScreen None ''QTY_LIMIT''"
    unfolding demo_error_response_def by (elim conjE impE)
  from A h4 have a4: "lastOrder (submit_settle demo_engine demo_error_response demo_submitted)
      = JNull"
    unfolding demo_error_response_def by (elim conjE) (rule trans)
  note B = mp [OF T [THEN conjunct2, THEN conjunct1] h3]
  from B h4 have b: "lastOrder (submit_settle demo_engine None demo_submitted) = JNull"
    by (elim conjE) (rule trans)
  note T5 = T [THEN conjunct2, THEN conjunct2, THEN conjunct2, THEN conjunct2]
  from mp [OF T5 h7] obtain i fetched' where
    e: "Settle 1 ?O = Settle i fetched'" and
    r: "submitPurchase_resume demo_engine fetched'
             = Inr (lastOrder (step demo_engine 6 demo_submitted (Settle 1 ?O)))"
    by (elim exE conjE)
  from e have "fetched' = ?O" by simp
  with r h5 have c: "submitPurchase_resume demo_engine ?O = Inr demo_order" by simp
  note N3 = TN [THEN conjunct2, THEN conjunct2, THEN conjunct1]
  from N3 hN have n1: "submitPurchase_resume demo_engine ?N = Inr JNull" by (rule iffD2)
  note N4 = mp [OF TN [THEN conjunct2, THEN conjunct2, THEN conjunct2, THEN conjunct1] n1]
  note N5 = mp [OF N4 [THEN conjunct2, THEN conjunct2, THEN conjunct1] h8]
  from N5 have n2: "view (submit_settle demo_engine ?N demo_submitted) = ViewConfirm"
    by (rule conjunct1)
  from N5 have n3: "screen (submit_settle demo_engine ?N demo_submitted)
               = ErrorScreen (Some ''Missing order'') ''UNKNOWN''"
    by (rule conjunct2)
  note M3 = TM [THEN conjunct2, THEN conjunct2, THEN conjunct1]
  from M3 hM have m1: "submitPurchase_resume demo_engine ?M = Inr demo_malformed_order"
    by (rule iffD2)
  note M4 = mp [OF TM [THEN conjunct2, THEN conjunct2, THEN conjunct2, THEN conjunct1] m1]
  from M4 have m2: "lastOrder (submit_settle demo_engine ?M demo_submitted)
      = demo_malformed_order" by (rule conjunct1)
  from mp [OF M4 [THEN conjunct2, THEN conjunct2, THEN conjunct2] h9]
  have m3: "view (submit_settle demo_engine ?M demo_submitted) = ViewError" .
  from h9 have h9a: "truthy demo_malformed_order" and h9b: "renderConfirm_throws demo_malformed_order"
    by simp_all
  from a1 a2 a3 a4 h3 b h5 c n1 n2 n3 m1 h9a h9b m2 m3 show ?thesis by (intro conjI)
qed

section \<open>Quantities of the selection\<close>




















end
